theory Spec2Isabelle
  imports Complex_Main "HOL-Library.Monad_Syntax"
begin

section \<open>FloraJS Agent: steering behaviours and force accumulation\<close>

text \<open>
  A shallow embedding of \<^verbatim>\<open>src/agent.js\<close>. JavaScript numbers are modelled as
  real numbers: rounding, overflow and NaN are outside the model. The one way a real
  computation of this file can leave the finite numbers is a division by zero (JavaScript
  gives \<open>Infinity\<close> or \<open>NaN\<close> there, it does not throw). The divisions of vectors
  (\<open>div\<close>, and the division by the mass in \<open>applyForce\<close>) are therefore partial
  operations of the model, and \<open>None\<close> stands for "a non-finite number was produced";
  the quotient of the flow-field block is treated where it occurs.
\<close>

subsection \<open>Burner.Vector\<close>

text \<open>
  The fields are \<open>x\<close> and \<open>y\<close> in the source; they are called \<open>vx\<close> and \<open>vy\<close> here,
  because a record field is a constant and \<open>x\<close>, \<open>y\<close> are wanted as variables.
\<close>

record vector =
  vx :: real
  vy :: real

definition Vector :: "real \<Rightarrow> real \<Rightarrow> vector" where
  \<comment> \<open>Modelled from the spec: the class Burner.Vector is not among the sources. The spec
      has it as the value type \<open>{x: float, y: float}\<close>; \<open>new Burner.Vector()\<close> is
      \<open>Vector 0 0\<close>.\<close>
  "Vector a b = \<lparr>vx = a, vy = b\<rparr>"

definition vadd :: "vector \<Rightarrow> vector \<Rightarrow> vector" where
  \<comment> \<open>Modelled from the spec: Burner.Vector.prototype.add (vector arithmetic).\<close>
  "vadd v w = Vector (vx v + vx w) (vy v + vy w)"

definition vsub :: "vector \<Rightarrow> vector \<Rightarrow> vector" where
  \<comment> \<open>Modelled from the spec: Burner.Vector.prototype.sub (vector arithmetic).\<close>
  "vsub v w = Vector (vx v - vx w) (vy v - vy w)"

definition VectorSub :: "vector \<Rightarrow> vector \<Rightarrow> vector" where
  \<comment> \<open>Modelled from the spec: Burner.Vector.VectorSub, the difference as a new vector
      (\<open>diff = self \<minus> other\<close>).\<close>
  "VectorSub v w = Vector (vx v - vx w) (vy v - vy w)"

definition vmult :: "vector \<Rightarrow> real \<Rightarrow> vector" where
  \<comment> \<open>Modelled from the spec: Burner.Vector.prototype.mult (scaling by a number).\<close>
  "vmult v n = Vector (vx v * n) (vy v * n)"

definition vdiv :: "vector \<Rightarrow> real \<Rightarrow> vector option" where
  \<comment> \<open>Modelled from the spec: Burner.Vector.prototype.div (division by a number).
      A zero divisor gives a non-finite component in JavaScript: \<open>None\<close> here.\<close>
  "vdiv v n = (if n = 0 then None else Some (Vector (vx v / n) (vy v / n)))"

definition mag :: "vector \<Rightarrow> real" where
  \<comment> \<open>Modelled from the spec: Burner.Vector.prototype.mag (magnitude).\<close>
  "mag v = sqrt (vx v * vx v + vy v * vy v)"

definition vnormalize :: "vector \<Rightarrow> vector" where
  \<comment> \<open>Modelled from the spec: Burner.Vector.prototype.normalize. "Normalization of the
      zero vector yields the zero vector (no divide-by-zero fault permitted)."\<close>
  "vnormalize v = (let m = mag v in if m \<noteq> 0 then Vector (vx v / m) (vy v / m) else v)"

definition vlimit :: "vector \<Rightarrow> real \<Rightarrow> vector" where
  \<comment> \<open>Modelled from the spec: Burner.Vector.prototype.limit, which clamps the magnitude
      of the vector to the given bound ("magnitude-clamped to maxSteeringForce").\<close>
  "vlimit v high = (if mag v > high then vmult (vnormalize v) high else v)"

definition distance :: "vector \<Rightarrow> vector \<Rightarrow> real" where
  \<comment> \<open>Modelled from the spec: Burner.Vector.prototype.distance (Euclidean distance).\<close>
  "distance v w = sqrt ((vx w - vx v) * (vx w - vx v) + (vy w - vy v) * (vy w - vy v))"

definition clone :: "vector \<Rightarrow> vector" where
  \<comment> \<open>Modelled from the spec: Utils.clone, a copy of the value ("copied or explicitly
      cloned, never aliased").\<close>
  "clone v = Vector (vx v) (vy v)"

subsection \<open>FlowField, Sensor, Agent\<close>

text \<open>
  \<open>field[col]\<close> and \<open>field[col][row]\<close> are array reads: an index with no entry
  (negative, beyond the end, or a hole) reads \<open>undefined\<close>, which is \<open>None\<close>.
\<close>

record flowfield =
  resolution :: real
  field :: "int \<Rightarrow> (int \<Rightarrow> vector option) option"

text \<open>The fields of a Sensor that \<open>applyForces\<close> reads or writes.\<close>

record sensor =
  offsetDistance :: real
  offsetAngle :: real
  sensor_location :: vector
  sensor_borderStyle :: string
  activated :: bool

datatype css_color = ColorName string | ColorRGB "real list"

text \<open>
  An Agent with the fields of Mover that the code of Agent reads. \<open>ident\<close> is the field
  \<open>id\<close>; \<open>seekTarget\<close> holds the location of the object to seek (the only field of it that
  is read), \<open>None\<close> for \<open>null\<close>.
\<close>

record agent =
  ident :: string
  className :: string
  location :: vector
  velocity :: vector
  acceleration :: vector
  mass :: real
  maxSpeed :: real
  motorSpeed :: real
  angle :: real
  width :: real
  followMouse :: bool
  maxSteeringForce :: real
  seekTarget :: "vector option"
  flocking :: bool
  desiredSeparation :: real
  separateStrength :: real
  alignStrength :: real
  cohesionStrength :: real
  flowField :: "flowfield option"
  sensors :: "sensor list"
  color :: "real list"
  borderWidth :: real
  borderStyle :: string
  borderColor :: css_color
  borderRadius :: real
  separateSumForceVector :: vector
  alignSumForceVector :: vector
  cohesionSumForceVector :: vector
  followTargetVector :: vector
  followDesiredVelocity :: vector

subsection \<open>Mover.applyForce and Mover._seek\<close>

definition applyForce :: "agent \<Rightarrow> vector \<Rightarrow> agent option" where
  \<comment> \<open>Modelled from the spec: Mover.prototype.applyForce is not among the sources.
      "applyForce(f): acceleration += f / mass. No bounds checking on mass."\<close>
  "applyForce a f = do {
     fv \<leftarrow> vdiv f (mass a);
     Some (a\<lparr>acceleration := vadd (acceleration a) fv\<rparr>)
   }"

definition seek :: "agent \<Rightarrow> vector \<Rightarrow> vector" where
  \<comment> \<open>Modelled from the spec: Mover.prototype._seek is not among the sources. "desired
      velocity = direction from self to target's location, scaled to maxSpeed; steering
      force = desired velocity \<minus> current velocity, magnitude-clamped to
      maxSteeringForce." The argument is the target's location.\<close>
  "seek a target =
     (let desiredVelocity = vmult (vnormalize (VectorSub target (location a))) (maxSpeed a)
      in vlimit (vsub desiredVelocity (velocity a)) (maxSteeringForce a))"

subsection \<open>Agent.follow\<close>

definition follow :: "agent \<Rightarrow> vector \<Rightarrow> vector \<times> agent" where
  \<comment> \<open>The argument is \<open>target.location\<close>. The result is the scratch vector
      \<open>followDesiredVelocity\<close>, returned with the agent that holds it.\<close>
  "follow a target_location =
     (let v0 = Vector (vx target_location) (vy target_location);
          v1 = vmult v0 (maxSpeed a);
          v2 = vsub v1 (velocity a);
          v3 = vlimit v2 (maxSteeringForce a)
      in (v3, a\<lparr>followDesiredVelocity := v3\<rparr>))"

subsection \<open>Agent.separate, Agent.align, Agent.cohesion\<close>

text \<open>
  The three loops run over \<open>elements\<close> with the running \<open>sum\<close> (\<open>sumv\<close> here, as
  \<open>sum\<close> is a constant of HOL) and \<open>count\<close>. \<open>sum\<close> is the agent's own scratch vector, so
  the agent returned holds the final value of it. The result is the vector returned,
  whether it is that scratch vector (\<open>True\<close>) or a new vector (\<open>False\<close>), and the agent.
\<close>

fun separate_loop :: "agent \<Rightarrow> agent list \<Rightarrow> vector \<Rightarrow> nat \<Rightarrow> (vector \<times> nat) option" where
  "separate_loop a [] sumv count = Some (sumv, count)"
| "separate_loop a (element # elements) sumv count =
     (if className a = className element \<and> ident a \<noteq> ident element then
        (let d = distance (location a) (location element) in
         if d > 0 \<and> d < desiredSeparation a then
           do {
             diff \<leftarrow> vdiv (vnormalize (VectorSub (location a) (location element))) d;
             separate_loop a elements (vadd sumv diff) (count + 1)
           }
         else separate_loop a elements sumv count)
      else separate_loop a elements sumv count)"

definition steer :: "agent \<Rightarrow> vector \<Rightarrow> vector" where
  \<comment> \<open>The last four statements of the three behaviours, the same in each:
      \<open>sum.normalize(); sum.mult(this.maxSpeed); sum.sub(this.velocity);
      sum.limit(this.maxSteeringForce)\<close>.\<close>
  "steer a sumv =
     vlimit (vsub (vmult (vnormalize sumv) (maxSpeed a)) (velocity a)) (maxSteeringForce a)"

definition separate :: "agent \<Rightarrow> agent list \<Rightarrow> (vector \<times> bool \<times> agent) option" where
  "separate a elements = do {
     (sumv, count) \<leftarrow> separate_loop a elements (Vector 0 0) 0;
     if count > 0 then do {
       sumv1 \<leftarrow> vdiv sumv (real count);
       let sumv2 = steer a sumv1;
       Some (sumv2, True, a\<lparr>separateSumForceVector := sumv2\<rparr>)
     }
     else Some (Vector 0 0, False, a\<lparr>separateSumForceVector := sumv\<rparr>)
   }"

fun align_loop :: "agent \<Rightarrow> real \<Rightarrow> agent list \<Rightarrow> vector \<Rightarrow> nat \<Rightarrow> vector \<times> nat" where
  "align_loop a neighbordist [] sumv count = (sumv, count)"
| "align_loop a neighbordist (element # elements) sumv count =
     (let d = distance (location a) (location element) in
      if d > 0 \<and> d < neighbordist then
        if className a = className element \<and> ident a \<noteq> ident element then
          align_loop a neighbordist elements (vadd sumv (velocity element)) (count + 1)
        else align_loop a neighbordist elements sumv count
      else align_loop a neighbordist elements sumv count)"

definition align :: "agent \<Rightarrow> agent list \<Rightarrow> (vector \<times> bool \<times> agent) option" where
  "align a elements =
     (let neighbordist = width a * 2;
          (sumv, count) = align_loop a neighbordist elements (Vector 0 0) 0
      in if count > 0 then do {
           sumv1 \<leftarrow> vdiv sumv (real count);
           let sumv2 = steer a sumv1;
           Some (sumv2, True, a\<lparr>alignSumForceVector := sumv2\<rparr>)
         }
         else Some (Vector 0 0, False, a\<lparr>alignSumForceVector := sumv\<rparr>))"

fun cohesion_loop :: "agent \<Rightarrow> real \<Rightarrow> agent list \<Rightarrow> vector \<Rightarrow> nat \<Rightarrow> vector \<times> nat" where
  "cohesion_loop a neighbordist [] sumv count = (sumv, count)"
| "cohesion_loop a neighbordist (element # elements) sumv count =
     (let d = distance (location a) (location element) in
      if d > 0 \<and> d < neighbordist then
        if className a = className element \<and> ident a \<noteq> ident element then
          cohesion_loop a neighbordist elements (vadd sumv (location element)) (count + 1)
        else cohesion_loop a neighbordist elements sumv count
      else cohesion_loop a neighbordist elements sumv count)"

definition cohesion :: "agent \<Rightarrow> agent list \<Rightarrow> (vector \<times> bool \<times> agent) option" where
  "cohesion a elements =
     (let neighbordist = 10;
          (sumv, count) = cohesion_loop a neighbordist elements (Vector 0 0) 0
      in if count > 0 then do {
           sumv1 \<leftarrow> vdiv sumv (real count);
           let sumv2 = vsub sumv1 (location a);
           let sumv3 = steer a sumv2;
           Some (sumv3, True, a\<lparr>cohesionSumForceVector := sumv3\<rparr>)
         }
         else Some (Vector 0 0, False, a\<lparr>cohesionSumForceVector := sumv\<rparr>))"

subsection \<open>Agent.flock\<close>

text \<open>
  \<open>this.separate(elements).mult(this.separateStrength)\<close> scales the returned vector in
  place: when it is the agent's scratch vector, the agent sees the scaled value. Each of
  the three statements of \<open>flock\<close> is a function of its own here. The result of \<open>flock\<close>
  is \<open>this.acceleration\<close> with the agent.
\<close>

definition apply_separate :: "agent \<Rightarrow> agent list \<Rightarrow> agent option" where
  \<comment> \<open>\<open>this.applyForce(this.separate(elements).mult(this.separateStrength))\<close>\<close>
  "apply_separate a elements = do {
     (v, own, a1) \<leftarrow> separate a elements;
     let f = vmult v (separateStrength a1);
     let a2 = (if own then a1\<lparr>separateSumForceVector := f\<rparr> else a1);
     applyForce a2 f
   }"

definition apply_align :: "agent \<Rightarrow> agent list \<Rightarrow> agent option" where
  \<comment> \<open>\<open>this.applyForce(this.align(elements).mult(this.alignStrength))\<close>\<close>
  "apply_align a elements = do {
     (v, own, a1) \<leftarrow> align a elements;
     let f = vmult v (alignStrength a1);
     let a2 = (if own then a1\<lparr>alignSumForceVector := f\<rparr> else a1);
     applyForce a2 f
   }"

definition apply_cohesion :: "agent \<Rightarrow> agent list \<Rightarrow> agent option" where
  \<comment> \<open>\<open>this.applyForce(this.cohesion(elements).mult(this.cohesionStrength))\<close>\<close>
  "apply_cohesion a elements = do {
     (v, own, a1) \<leftarrow> cohesion a elements;
     let f = vmult v (cohesionStrength a1);
     let a2 = (if own then a1\<lparr>cohesionSumForceVector := f\<rparr> else a1);
     applyForce a2 f
   }"

definition flock :: "agent \<Rightarrow> agent list \<Rightarrow> (vector \<times> agent) option" where
  "flock a elements = do {
     a1 \<leftarrow> apply_separate a elements;
     a2 \<leftarrow> apply_align a1 elements;
     a3 \<leftarrow> apply_cohesion a2 elements;
     Some (acceleration a3, a3)
   }"

subsection \<open>Agent.applyForces\<close>

text \<open>
  What \<open>applyForces\<close> reads of \<open>Burner.System\<close>: the caches of liquids, attractors and
  repellers (\<open>None\<close> when the cache is undefined, else its \<open>list\<close>), the touch flag, the
  mouse location, and the list that \<open>getAllItemsByName('Agent')\<close> returns. The items of
  the caches are of a type \<open>'i\<close> left open.
\<close>

record 'i system =
  liquids :: "'i list option"
  attractors :: "'i list option"
  repellers :: "'i list option"
  touch :: bool
  mouse_location :: vector
  agents :: "agent list"

text \<open>
  The functions \<open>applyForces\<close> calls that are not among the sources and that the spec
  leaves to collaborators are parameters: the \<open>id\<close> of an item, \<open>Utils.isInside\<close>,
  \<open>Mover.drag\<close>, \<open>Mover.attract\<close>, \<open>Sensor.getActivationForce\<close> and
  \<open>Utils.degreesToRadians\<close>. Each is a function of its arguments' current values.
\<close>

record 'i collaborators =
  item_id :: "'i \<Rightarrow> string"
  isInside :: "agent \<Rightarrow> 'i \<Rightarrow> bool"
  drag :: "agent \<Rightarrow> 'i \<Rightarrow> vector"
  attract :: "agent \<Rightarrow> 'i \<Rightarrow> vector"
  getActivationForce :: "sensor \<Rightarrow> agent \<Rightarrow> vector"
  degreesToRadians :: "real \<Rightarrow> real"

fun liquids_loop :: "'i collaborators \<Rightarrow> agent \<Rightarrow> 'i list \<Rightarrow> agent option" where
  "liquids_loop c a [] = Some a"
| "liquids_loop c a (l # ls) =
     (if ident a \<noteq> item_id c l \<and> isInside c a l then
        do { a' \<leftarrow> applyForce a (drag c a l); liquids_loop c a' ls }
      else liquids_loop c a ls)"

definition liquid_phase :: "'i collaborators \<Rightarrow> 'i system \<Rightarrow> agent \<Rightarrow> agent option" where
  "liquid_phase c sys a =
     (case liquids sys of
        None \<Rightarrow> Some a
      | Some ls \<Rightarrow> if length ls > 0 then liquids_loop c a ls else Some a)"

text \<open>The loops over the attractors and over the repellers have the same body.\<close>

fun attract_loop :: "'i collaborators \<Rightarrow> agent \<Rightarrow> 'i list \<Rightarrow> agent option" where
  "attract_loop c a [] = Some a"
| "attract_loop c a (t # ts) =
     (if ident a \<noteq> item_id c t then
        do { a' \<leftarrow> applyForce a (attract c a t); attract_loop c a' ts }
      else attract_loop c a ts)"

definition attractor_phase :: "'i collaborators \<Rightarrow> 'i system \<Rightarrow> agent \<Rightarrow> agent option" where
  "attractor_phase c sys a =
     (case attractors sys of
        None \<Rightarrow> Some a
      | Some ts \<Rightarrow> if length ts > 0 then attract_loop c a ts else Some a)"

definition repeller_phase :: "'i collaborators \<Rightarrow> 'i system \<Rightarrow> agent \<Rightarrow> agent option" where
  "repeller_phase c sys a =
     (case repellers sys of
        None \<Rightarrow> Some a
      | Some ts \<Rightarrow> if length ts > 0 then attract_loop c a ts else Some a)"

definition place :: "'i collaborators \<Rightarrow> agent \<Rightarrow> nat \<Rightarrow> sensor \<Rightarrow> sensor" where
  \<comment> \<open>The body of the loop over the sensors up to the test of \<open>sensor.activated\<close>:
      the sensor of index \<open>i\<close> is positioned, and loses its border when \<open>i\<close> is not 0.\<close>
  "place c a i s =
     (let r = offsetDistance s;
          theta = degreesToRadians c (angle a + offsetAngle s);
          x = r * cos theta;
          y = r * sin theta;
          s1 = s\<lparr>sensor_location := vadd (Vector (vx (location a)) (vy (location a))) (Vector x y)\<rparr>
      in if i \<noteq> 0 then s1\<lparr>sensor_borderStyle := ''none''\<rparr> else s1)"

text \<open>
  The loop over \<open>this.sensors\<close>, from index \<open>i\<close>. The third argument is the list of the
  sensors from index \<open>i\<close> on, which no earlier iteration has written; the sensor placed is
  written back into the agent at its index. The result is the agent with the value of
  \<open>sensorActivated\<close>.
\<close>

fun sensors_loop ::
  "'i collaborators \<Rightarrow> agent \<Rightarrow> nat \<Rightarrow> sensor list \<Rightarrow> bool \<Rightarrow> (agent \<times> bool) option" where
  "sensors_loop c a i [] sensorActivated = Some (a, sensorActivated)"
| "sensors_loop c a i (s # rest) sensorActivated =
     (let s' = place c a i s;
          a1 = a\<lparr>sensors := (sensors a)[i := s']\<rparr>
      in if activated s' then
           do {
             a2 \<leftarrow> applyForce a1 (getActivationForce c s' a1);
             sensors_loop c a2 (i + 1) rest True
           }
         else sensors_loop c a1 (i + 1) rest sensorActivated)"

definition sensor_phase :: "'i collaborators \<Rightarrow> agent \<Rightarrow> (agent \<times> bool) option" where
  \<comment> \<open>\<open>sensorActivated\<close> is declared without a value: it is falsy until a sensor fires.\<close>
  "sensor_phase c a =
     (if length (sensors a) > 0 then sensors_loop c a 0 (sensors a) False
      else Some (a, False))"

definition motor_force :: "agent \<Rightarrow> vector" where
  \<comment> \<open>The vector \<open>dir\<close> that the motor block passes to \<open>applyForce\<close>.\<close>
  "motor_force a =
     (let dir = vnormalize (clone (velocity a))
      in if mag (velocity a) > motorSpeed a then vmult dir (- motorSpeed a)
         else vmult dir (motorSpeed a))"

definition motor_phase :: "agent \<Rightarrow> bool \<Rightarrow> agent option" where
  "motor_phase a sensorActivated =
     (if \<not> sensorActivated \<and> motorSpeed a \<noteq> 0 then applyForce a (motor_force a)
      else Some a)"

definition mouse_phase :: "'i system \<Rightarrow> agent \<Rightarrow> agent option" where
  "mouse_phase sys a =
     (if followMouse a \<and> \<not> touch sys then
        (let t = Vector (vx (mouse_location sys)) (vy (mouse_location sys))
         in applyForce a (seek a t))
      else Some a)"

definition seek_phase :: "agent \<Rightarrow> agent option" where
  "seek_phase a =
     (case seekTarget a of
        None \<Rightarrow> Some a
      | Some t \<Rightarrow> applyForce a (seek a t))"

text \<open>
  With \<open>res = 0\<close> the quotient \<open>location.x/res\<close> is \<open>Infinity\<close>, \<open>-Infinity\<close> or \<open>NaN\<close>,
  which is no index of the array \<open>field\<close>: \<open>field[col]\<close> is undefined and the block
  applies nothing.
\<close>

definition flow_phase :: "agent \<Rightarrow> agent option" where
  "flow_phase a =
     (case flowField a of
        None \<Rightarrow> Some a
      | Some ff \<Rightarrow>
          (let res = resolution ff in
           if res = 0 then Some a
           else
             (let col = \<lfloor>vx (location a) / res\<rfloor>;
                  row = \<lfloor>vy (location a) / res\<rfloor>
              in case field ff col of
                   None \<Rightarrow> Some a
                 | Some column \<Rightarrow>
                     (let a1 = (case column row of
                                  Some loc \<Rightarrow> a\<lparr>followTargetVector := Vector (vx loc) (vy loc)\<rparr>
                                | None \<Rightarrow>
                                    a\<lparr>followTargetVector :=
                                        Vector (vx (location a)) (vy (location a))\<rparr>);
                          (f, a2) = follow a1 (followTargetVector a1)
                      in applyForce a2 f))))"

definition flock_phase :: "'i system \<Rightarrow> agent \<Rightarrow> agent option" where
  "flock_phase sys a =
     (if flocking a then map_option snd (flock a (agents sys)) else Some a)"

definition applyForces ::
  "'i collaborators \<Rightarrow> 'i system \<Rightarrow> agent \<Rightarrow> (vector \<times> agent) option" where
  \<comment> \<open>The result is \<open>this.acceleration\<close> with the agent.\<close>
  "applyForces c sys a = do {
     a1 \<leftarrow> liquid_phase c sys a;
     a2 \<leftarrow> attractor_phase c sys a1;
     a3 \<leftarrow> repeller_phase c sys a2;
     (a4, sensorActivated) \<leftarrow> sensor_phase c a3;
     a5 \<leftarrow> motor_phase a4 sensorActivated;
     a6 \<leftarrow> mouse_phase sys a5;
     a7 \<leftarrow> seek_phase a6;
     a8 \<leftarrow> flow_phase a7;
     a9 \<leftarrow> flock_phase sys a8;
     Some (acceleration a9, a9)
   }"

subsection \<open>Agent.init\<close>

text \<open>
  The options object: a field that is absent (\<open>undefined\<close>) is \<open>None\<close>. The types are
  those of the documentation of \<open>init\<close>.
\<close>

record options =
  opt_followMouse :: "bool option"
  opt_maxSteeringForce :: "real option"
  opt_seekTarget :: "vector option"
  opt_flocking :: "bool option"
  opt_desiredSeparation :: "real option"
  opt_separateStrength :: "real option"
  opt_alignStrength :: "real option"
  opt_cohesionStrength :: "real option"
  opt_flowField :: "flowfield option"
  opt_sensors :: "sensor list option"
  opt_color :: "real list option"
  opt_borderWidth :: "real option"
  opt_borderStyle :: "string option"
  opt_borderColor :: "css_color option"
  opt_borderRadius :: "real option"

definition no_options :: options where
  \<comment> \<open>The empty object \<open>{}\<close>.\<close>
  "no_options =
     \<lparr>opt_followMouse = None, opt_maxSteeringForce = None, opt_seekTarget = None,
      opt_flocking = None, opt_desiredSeparation = None, opt_separateStrength = None,
      opt_alignStrength = None, opt_cohesionStrength = None, opt_flowField = None,
      opt_sensors = None, opt_color = None, opt_borderWidth = None, opt_borderStyle = None,
      opt_borderColor = None, opt_borderRadius = None\<rparr>"

text \<open>Truthiness of an optional boolean, number, string and colour.\<close>

definition truthy_bool :: "bool option \<Rightarrow> bool" where
  "truthy_bool b = (b = Some True)"

definition truthy_number :: "real option \<Rightarrow> bool" where
  "truthy_number n = (case n of None \<Rightarrow> False | Some r \<Rightarrow> r \<noteq> 0)"

definition truthy_string :: "string option \<Rightarrow> bool" where
  "truthy_string s = (case s of None \<Rightarrow> False | Some t \<Rightarrow> t \<noteq> [])"

definition truthy_color :: "css_color option \<Rightarrow> bool" where
  "truthy_color k =
     (case k of None \<Rightarrow> False | Some (ColorName t) \<Rightarrow> t \<noteq> [] | Some (ColorRGB _) \<Rightarrow> True)"

text \<open>
  \<open>init\<close> on the agent that \<open>Mover.init\<close> (not among the sources) has initialised: the
  second argument is \<open>this\<close> after the call of the superclass.
\<close>

definition init :: "options option \<Rightarrow> agent \<Rightarrow> agent" where
  "init opt_options this =
     (let options = (case opt_options of None \<Rightarrow> no_options | Some opts \<Rightarrow> opts);
          sensors' = (case opt_sensors options of None \<Rightarrow> [] | Some ss \<Rightarrow> ss)
      in this\<lparr>
           followMouse := truthy_bool (opt_followMouse options),
           maxSteeringForce :=
             (case opt_maxSteeringForce options of None \<Rightarrow> 10 | Some v \<Rightarrow> v),
           seekTarget := opt_seekTarget options,
           flocking := truthy_bool (opt_flocking options),
           desiredSeparation :=
             (case opt_desiredSeparation options of None \<Rightarrow> width this * 2 | Some v \<Rightarrow> v),
           separateStrength :=
             (case opt_separateStrength options of None \<Rightarrow> 0.3 | Some v \<Rightarrow> v),
           alignStrength :=
             (case opt_alignStrength options of None \<Rightarrow> 0.2 | Some v \<Rightarrow> v),
           cohesionStrength :=
             (case opt_cohesionStrength options of None \<Rightarrow> 0.1 | Some v \<Rightarrow> v),
           flowField := opt_flowField options,
           sensors := sensors',
           color := (case opt_color options of None \<Rightarrow> [197, 177, 115] | Some k \<Rightarrow> k),
           borderWidth :=
             (if truthy_number (opt_borderWidth options) then the (opt_borderWidth options)
              else 0),
           borderStyle :=
             (if truthy_string (opt_borderStyle options) then the (opt_borderStyle options)
              else ''none''),
           borderColor :=
             (if truthy_color (opt_borderColor options) then the (opt_borderColor options)
              else ColorName ''transparent''),
           borderRadius :=
             (if truthy_number (opt_borderRadius options) \<or> length sensors' \<noteq> 0 then 100
              else 0),
           separateSumForceVector := Vector 0 0,
           alignSumForceVector := Vector 0 0,
           cohesionSumForceVector := Vector 0 0,
           followTargetVector := Vector 0 0,
           followDesiredVelocity := Vector 0 0\<rparr>)"

subsection \<open>Agent.getLocation and Agent.getVelocity\<close>

text \<open>
  The argument \<open>type\<close> is an optional string; \<open>!type\<close> holds for \<open>undefined\<close> and for the
  empty string. The result is a vector, a number, or \<open>undefined\<close> when no branch returns.
\<close>

datatype getter_result = ResultVector vector | ResultNumber real | ResultUndefined

definition getLocation :: "agent \<Rightarrow> string option \<Rightarrow> getter_result" where
  "getLocation a type =
     (if \<not> truthy_string type then ResultVector (Vector (vx (location a)) (vy (location a)))
      else if type = Some ''x'' then ResultNumber (vx (location a))
      else if type = Some ''y'' then ResultNumber (vy (location a))
      else ResultUndefined)"

definition getVelocity :: "agent \<Rightarrow> string option \<Rightarrow> getter_result" where
  "getVelocity a type =
     (if \<not> truthy_string type then ResultVector (Vector (vx (location a)) (vy (location a)))
      else if type = Some ''x'' then ResultNumber (vx (velocity a))
      else if type = Some ''y'' then ResultNumber (vy (velocity a))
      else ResultUndefined)"

subsection \<open>The contributions, as the specification lists them\<close>

text \<open>
  The specification describes \<open>applyForces\<close> as a fixed sequence of behaviours, each of
  which contributes forces that are added into the acceleration. The definitions of this
  subsection follow that description, not the code: the forces of each behaviour as a
  list, all computed on the agent as it is when \<open>applyForces\<close> is called, and the sum
  \<open>acceleration += f / mass\<close> over a list of forces. The theorems compare them with the
  code above.
\<close>

definition accumulate :: "vector \<Rightarrow> real \<Rightarrow> vector list \<Rightarrow> vector" where
  \<comment> \<open>\<open>acceleration += f / mass\<close> for each force of the list, in order.\<close>
  "accumulate acc m fs = foldl (\<lambda>v f. vadd v (Vector (vx f / m) (vy f / m))) acc fs"

text \<open>The vector that each flocking behaviour returns.\<close>

definition separate_force :: "agent \<Rightarrow> agent list \<Rightarrow> vector" where
  "separate_force a elements =
     (case separate a elements of Some (v, _, _) \<Rightarrow> v | None \<Rightarrow> Vector 0 0)"

definition align_force :: "agent \<Rightarrow> agent list \<Rightarrow> vector" where
  "align_force a elements =
     (case align a elements of Some (v, _, _) \<Rightarrow> v | None \<Rightarrow> Vector 0 0)"

definition cohesion_force :: "agent \<Rightarrow> agent list \<Rightarrow> vector" where
  "cohesion_force a elements =
     (case cohesion a elements of Some (v, _, _) \<Rightarrow> v | None \<Rightarrow> Vector 0 0)"

definition flock_forces :: "agent \<Rightarrow> agent list \<Rightarrow> vector list" where
  "flock_forces a elements =
     [vmult (separate_force a elements) (separateStrength a),
      vmult (align_force a elements) (alignStrength a),
      vmult (cohesion_force a elements) (cohesionStrength a)]"

definition liquid_forces :: "'i collaborators \<Rightarrow> 'i system \<Rightarrow> agent \<Rightarrow> vector list" where
  "liquid_forces c sys a =
     (case liquids sys of
        None \<Rightarrow> []
      | Some ls \<Rightarrow> map (drag c a) (filter (\<lambda>l. ident a \<noteq> item_id c l \<and> isInside c a l) ls))"

definition attractor_forces :: "'i collaborators \<Rightarrow> 'i system \<Rightarrow> agent \<Rightarrow> vector list" where
  "attractor_forces c sys a =
     (case attractors sys of
        None \<Rightarrow> []
      | Some ts \<Rightarrow> map (attract c a) (filter (\<lambda>t. ident a \<noteq> item_id c t) ts))"

definition repeller_forces :: "'i collaborators \<Rightarrow> 'i system \<Rightarrow> agent \<Rightarrow> vector list" where
  "repeller_forces c sys a =
     (case repellers sys of
        None \<Rightarrow> []
      | Some ts \<Rightarrow> map (attract c a) (filter (\<lambda>t. ident a \<noteq> item_id c t) ts))"

definition sensor_forces_from ::
  "'i collaborators \<Rightarrow> agent \<Rightarrow> nat \<Rightarrow> sensor list \<Rightarrow> vector list" where
  "sensor_forces_from c a i ss =
     map (\<lambda>(j, s). getActivationForce c (place c a j s) a)
       (filter (\<lambda>(j, s). activated s) (enumerate i ss))"

definition sensor_forces :: "'i collaborators \<Rightarrow> agent \<Rightarrow> vector list" where
  "sensor_forces c a = sensor_forces_from c a 0 (sensors a)"

definition motor_forces :: "agent \<Rightarrow> vector list" where
  "motor_forces a =
     (if \<not> (\<exists>s \<in> set (sensors a). activated s) \<and> motorSpeed a \<noteq> 0 then [motor_force a]
      else [])"

definition mouse_forces :: "'i system \<Rightarrow> agent \<Rightarrow> vector list" where
  "mouse_forces sys a =
     (if followMouse a \<and> \<not> touch sys then [seek a (mouse_location sys)] else [])"

definition seek_forces :: "agent \<Rightarrow> vector list" where
  "seek_forces a = (case seekTarget a of None \<Rightarrow> [] | Some t \<Rightarrow> [seek a t])"

definition flow_forces :: "agent \<Rightarrow> vector list" where
  "flow_forces a =
     (case flowField a of
        None \<Rightarrow> []
      | Some ff \<Rightarrow>
          if resolution ff = 0 then []
          else
            (case field ff \<lfloor>vx (location a) / resolution ff\<rfloor> of
               None \<Rightarrow> []
             | Some column \<Rightarrow>
                 (case column \<lfloor>vy (location a) / resolution ff\<rfloor> of
                    Some loc \<Rightarrow> [fst (follow a loc)]
                  | None \<Rightarrow> [fst (follow a (location a))])))"

definition flocking_forces :: "'i system \<Rightarrow> agent \<Rightarrow> vector list" where
  "flocking_forces sys a = (if flocking a then flock_forces a (agents sys) else [])"

definition contributions :: "'i collaborators \<Rightarrow> 'i system \<Rightarrow> agent \<Rightarrow> vector list" where
  "contributions c sys a =
     liquid_forces c sys a @ attractor_forces c sys a @ repeller_forces c sys a
     @ sensor_forces c a @ motor_forces a @ mouse_forces sys a @ seek_forces a
     @ flow_forces a @ flocking_forces sys a"

text \<open>
  The forces of the collaborators are taken to be functions of the agent's kinematic
  state: \<open>isInside\<close>, \<open>drag\<close> and \<open>attract\<close> do not read the acceleration accumulated so
  far, and \<open>getActivationForce\<close> reads neither it nor the agent's list of sensors (it has
  the sensor itself).
\<close>

definition accumulator_blind :: "'i collaborators \<Rightarrow> bool" where
  "accumulator_blind c \<longleftrightarrow>
     (\<forall>a acc. isInside c (a\<lparr>acceleration := acc\<rparr>) = isInside c a
        \<and> drag c (a\<lparr>acceleration := acc\<rparr>) = drag c a
        \<and> attract c (a\<lparr>acceleration := acc\<rparr>) = attract c a)
     \<and> (\<forall>s a acc ss.
          getActivationForce c s (a\<lparr>acceleration := acc, sensors := ss\<rparr>) =
          getActivationForce c s a)"

text \<open>
  The agent without what \<open>applyForces\<close> writes: the accumulator, the sensors and the
  scratch vectors.
\<close>

definition core :: "agent \<Rightarrow> agent" where
  "core a = a\<lparr>acceleration := Vector 0 0, sensors := [],
     separateSumForceVector := Vector 0 0, alignSumForceVector := Vector 0 0,
     cohesionSumForceVector := Vector 0 0, followTargetVector := Vector 0 0,
     followDesiredVelocity := Vector 0 0\<rparr>"

subsection \<open>Example configurations\<close>

text \<open>
  Concrete agents on which the theorems below are run: \<open>agent0\<close> at the origin and at
  rest, with unit mass, unit top speed and a steering bound of 1; \<open>agent1\<close>, a second
  agent of the same kind one unit to the right; \<open>agent2\<close>, a second agent of the same kind
  at the location of \<open>agent0\<close>.
\<close>

definition agent0 :: agent where
  "agent0 =
     \<lparr>ident = ''Agent1'', className = ''Agent'', location = Vector 0 0,
      velocity = Vector 0 0, acceleration = Vector 0 0, mass = 1, maxSpeed = 1,
      motorSpeed = 0, angle = 0, width = 1, followMouse = False, maxSteeringForce = 1,
      seekTarget = None, flocking = False, desiredSeparation = 2, separateStrength = 2,
      alignStrength = 1, cohesionStrength = 1, flowField = None, sensors = [],
      color = [197, 177, 115], borderWidth = 0, borderStyle = ''none'',
      borderColor = ColorName ''transparent'', borderRadius = 0,
      separateSumForceVector = Vector 0 0, alignSumForceVector = Vector 0 0,
      cohesionSumForceVector = Vector 0 0, followTargetVector = Vector 0 0,
      followDesiredVelocity = Vector 0 0\<rparr>"

definition agent1 :: agent where
  "agent1 = agent0\<lparr>ident := ''Agent2'', location := Vector 1 0\<rparr>"

definition agent2 :: agent where
  "agent2 = agent0\<lparr>ident := ''Agent3''\<rparr>"

text \<open>
  A flow field of resolution 1 whose column 1 exists and holds no vector, with an agent
  in that column; an agent moving to the right with a motor; an agent that flocks and
  has one activated sensor; collaborators whose forces are constants; a system with
  nothing in it; and a system with one liquid, one attractor and the two agents.
\<close>

definition hollow_field :: flowfield where
  "hollow_field =
     \<lparr>resolution = 1, field = (\<lambda>col. if col = 1 then Some (\<lambda>row. None) else None)\<rparr>"

definition field_agent :: agent where
  "field_agent = agent0\<lparr>location := Vector 1 0, flowField := Some hollow_field\<rparr>"

definition cruiser :: agent where
  "cruiser = agent0\<lparr>velocity := Vector 1 0, motorSpeed := 2\<rparr>"

definition probe :: sensor where
  "probe = \<lparr>offsetDistance = 1, offsetAngle = 0, sensor_location = Vector 0 0,
     sensor_borderStyle = ''solid'', activated = True\<rparr>"

definition flocker :: agent where
  "flocker = agent0\<lparr>flocking := True, sensors := [probe]\<rparr>"

definition still_collaborators :: "string collaborators" where
  "still_collaborators =
     \<lparr>item_id = (\<lambda>i. i), isInside = (\<lambda>a l. True), drag = (\<lambda>a l. Vector 1 0),
      attract = (\<lambda>a t. Vector 0 1), getActivationForce = (\<lambda>s a. Vector 1 1),
      degreesToRadians = (\<lambda>d. d * pi / 180)\<rparr>"

definition empty_system :: "string system" where
  "empty_system =
     \<lparr>liquids = None, attractors = None, repellers = None, touch = False,
      mouse_location = Vector 0 0, agents = []\<rparr>"

definition pond_system :: "string system" where
  "pond_system =
     \<lparr>liquids = Some [''Liquid1''], attractors = Some [''Attractor1''], repellers = Some [],
      touch = False, mouse_location = Vector 0 0, agents = [agent0, agent1]\<rparr>"

section \<open>Properties\<close>

subsection \<open>Vectors and the flocking loops\<close>

lemma vector_simps [simp]:
  "vx (Vector a b) = a" "vy (Vector a b) = b"
  by (simp_all add: Vector_def)

lemma Vector_eq_iff [simp]: "Vector a b = Vector c d \<longleftrightarrow> a = c \<and> b = d"
  by (simp add: Vector_def)

lemma Vector_eta [simp]: "Vector (vx v) (vy v) = v"
  by (simp add: Vector_def)

lemma mag_nonneg: "0 \<le> mag v"
  by (simp add: mag_def)

lemma mag_zero [simp]: "mag (Vector 0 0) = 0"
  by (simp add: mag_def)

lemma mag_vmult: "mag (vmult v n) = \<bar>n\<bar> * mag v"
proof -
  have "vx v * n * (vx v * n) + vy v * n * (vy v * n) = n\<^sup>2 * (vx v * vx v + vy v * vy v)"
    by (simp add: power2_eq_square algebra_simps)
  then show ?thesis
    by (simp add: mag_def vmult_def real_sqrt_mult)
qed

lemma mag_vnormalize: "mag v \<noteq> 0 \<Longrightarrow> mag (vnormalize v) = 1"
proof -
  assume nz: "mag v \<noteq> 0"
  let ?m = "mag v"
  have pos: "0 < ?m" using nz mag_nonneg [of v] by linarith
  have sq: "?m * ?m = vx v * vx v + vy v * vy v"
    by (simp add: mag_def)
  have "vx v / ?m * (vx v / ?m) + vy v / ?m * (vy v / ?m) = (vx v * vx v + vy v * vy v) / (?m * ?m)"
    by (simp add: add_divide_distrib)
  also have "\<dots> = (?m * ?m) / (?m * ?m)" by (simp only: sq)
  also have "\<dots> = 1" using pos by simp
  finally have "sqrt (vx v / ?m * (vx v / ?m) + vy v / ?m * (vy v / ?m)) = 1" by simp
  then have "mag (Vector (vx v / ?m) (vy v / ?m)) = 1"
    unfolding mag_def by simp
  then show ?thesis using nz
    by (simp add: vnormalize_def Let_def)
qed

lemma mag_vlimit: "0 \<le> high \<Longrightarrow> mag (vlimit v high) \<le> high"
proof (cases "mag v > high")
  case True
  assume h: "0 \<le> high"
  with True have "mag v \<noteq> 0" by linarith
  then show ?thesis using True h
    by (simp add: vlimit_def mag_vmult mag_vnormalize)
next
  case False
  then show ?thesis by (simp add: vlimit_def)
qed

lemma distance_same [simp]: "distance v v = 0"
  by (simp add: distance_def)

lemma separate_loop_total: "\<exists>s c. separate_loop a els sumv count = Some (s, c) \<and> count \<le> c"
proof (induction els arbitrary: sumv count)
  case Nil
  then show ?case by simp
next
  case (Cons e es)
  show ?case
  proof (cases "className a = className e \<and> ident a \<noteq> ident e \<and>
      distance (location a) (location e) > 0 \<and> distance (location a) (location e) < desiredSeparation a")
    case True
    obtain s c where "separate_loop a es (vadd sumv (Vector (vx (vnormalize (VectorSub (location a) (location e))) / distance (location a) (location e)) (vy (vnormalize (VectorSub (location a) (location e))) / distance (location a) (location e)))) (count + 1) = Some (s, c)" "count + 1 \<le> c"
      using Cons.IH by blast
    with True show ?thesis by (auto simp add: vdiv_def Let_def)
  next
    case False
    obtain s c where "separate_loop a es sumv count = Some (s, c)" "count \<le> c"
      using Cons.IH by blast
    with False show ?thesis by (auto simp add: Let_def)
  qed
qed

lemma separate_total: "\<exists>v own a'. separate a els = Some (v, own, a')"
proof -
  obtain s c where l: "separate_loop a els (Vector 0 0) 0 = Some (s, c)"
    using separate_loop_total by blast
  show ?thesis
    by (cases "c > 0") (use l in \<open>auto simp add: separate_def vdiv_def Let_def\<close>)
qed

lemma mag_steer: "0 \<le> maxSteeringForce a \<Longrightarrow> mag (steer a s) \<le> maxSteeringForce a"
  by (simp add: steer_def mag_vlimit)

lemma separate_bounded:
  assumes "0 \<le> maxSteeringForce a"
  shows "\<exists>v own a'. separate a els = Some (v, own, a') \<and> mag v \<le> maxSteeringForce a"
proof -
  obtain s c where l: "separate_loop a els (Vector 0 0) 0 = Some (s, c)"
    using separate_loop_total by blast
  show ?thesis
  proof (cases "c > 0")
    case True
    then show ?thesis using l assms
      by (auto simp add: separate_def vdiv_def mag_steer Let_def)
  next
    case False
    then show ?thesis using l assms
      by (auto simp add: separate_def)
  qed
qed

lemma align_bounded:
  assumes "0 \<le> maxSteeringForce a"
  shows "\<exists>v own a'. align a els = Some (v, own, a') \<and> mag v \<le> maxSteeringForce a"
proof -
  obtain s c where l: "align_loop a (width a * 2) els (Vector 0 0) 0 = (s, c)"
    by (cases "align_loop a (width a * 2) els (Vector 0 0) 0")
  show ?thesis
  proof (cases "c > 0")
    case True
    then show ?thesis using l assms
      by (auto simp add: align_def vdiv_def mag_steer Let_def)
  next
    case False
    then show ?thesis using l assms
      by (auto simp add: align_def)
  qed
qed

lemma cohesion_bounded:
  assumes "0 \<le> maxSteeringForce a"
  shows "\<exists>v own a'. cohesion a els = Some (v, own, a') \<and> mag v \<le> maxSteeringForce a"
proof -
  obtain s c where l: "cohesion_loop a 10 els (Vector 0 0) 0 = (s, c)"
    by (cases "cohesion_loop a 10 els (Vector 0 0) 0")
  show ?thesis
  proof (cases "c > 0")
    case True
    then show ?thesis using l assms
      by (auto simp add: cohesion_def vdiv_def mag_steer Let_def)
  next
    case False
    then show ?thesis using l assms
      by (auto simp add: cohesion_def)
  qed
qed

lemma separate_loop_skip:
  assumes "location b = location a"
  shows "separate_loop a (pre @ b # post) s n = separate_loop a (pre @ post) s n"
proof (induction pre arbitrary: s n)
  case Nil
  then show ?case using assms by (simp add: Let_def)
next
  case (Cons e es)
  then show ?case by (simp add: Let_def vdiv_def)
qed

subsection \<open>Accumulation of the forces\<close>

lemma core_fields:
  assumes "core a' = core a"
  shows "ident a' = ident a"
    and "className a' = className a"
    and "location a' = location a"
    and "velocity a' = velocity a"
    and "mass a' = mass a"
    and "maxSpeed a' = maxSpeed a"
    and "motorSpeed a' = motorSpeed a"
    and "angle a' = angle a"
    and "width a' = width a"
    and "followMouse a' = followMouse a"
    and "maxSteeringForce a' = maxSteeringForce a"
    and "seekTarget a' = seekTarget a"
    and "flocking a' = flocking a"
    and "desiredSeparation a' = desiredSeparation a"
    and "separateStrength a' = separateStrength a"
    and "alignStrength a' = alignStrength a"
    and "cohesionStrength a' = cohesionStrength a"
    and "flowField a' = flowField a"
proof -
  show "ident a' = ident a"
    using arg_cong [OF assms, of ident] by (simp add: core_def)
  show "className a' = className a"
    using arg_cong [OF assms, of className] by (simp add: core_def)
  show "location a' = location a"
    using arg_cong [OF assms, of location] by (simp add: core_def)
  show "velocity a' = velocity a"
    using arg_cong [OF assms, of velocity] by (simp add: core_def)
  show "mass a' = mass a"
    using arg_cong [OF assms, of mass] by (simp add: core_def)
  show "maxSpeed a' = maxSpeed a"
    using arg_cong [OF assms, of maxSpeed] by (simp add: core_def)
  show "motorSpeed a' = motorSpeed a"
    using arg_cong [OF assms, of motorSpeed] by (simp add: core_def)
  show "angle a' = angle a"
    using arg_cong [OF assms, of angle] by (simp add: core_def)
  show "width a' = width a"
    using arg_cong [OF assms, of width] by (simp add: core_def)
  show "followMouse a' = followMouse a"
    using arg_cong [OF assms, of followMouse] by (simp add: core_def)
  show "maxSteeringForce a' = maxSteeringForce a"
    using arg_cong [OF assms, of maxSteeringForce] by (simp add: core_def)
  show "seekTarget a' = seekTarget a"
    using arg_cong [OF assms, of seekTarget] by (simp add: core_def)
  show "flocking a' = flocking a"
    using arg_cong [OF assms, of flocking] by (simp add: core_def)
  show "desiredSeparation a' = desiredSeparation a"
    using arg_cong [OF assms, of desiredSeparation] by (simp add: core_def)
  show "separateStrength a' = separateStrength a"
    using arg_cong [OF assms, of separateStrength] by (simp add: core_def)
  show "alignStrength a' = alignStrength a"
    using arg_cong [OF assms, of alignStrength] by (simp add: core_def)
  show "cohesionStrength a' = cohesionStrength a"
    using arg_cong [OF assms, of cohesionStrength] by (simp add: core_def)
  show "flowField a' = flowField a"
    using arg_cong [OF assms, of flowField] by (simp add: core_def)
qed

lemma core_updates [simp]:
  "core (a\<lparr>acceleration := acc\<rparr>) = core a"
  "core (a\<lparr>sensors := ss\<rparr>) = core a"
  "core (a\<lparr>separateSumForceVector := v\<rparr>) = core a"
  "core (a\<lparr>alignSumForceVector := v\<rparr>) = core a"
  "core (a\<lparr>cohesionSumForceVector := v\<rparr>) = core a"
  "core (a\<lparr>followTargetVector := v\<rparr>) = core a"
  "core (a\<lparr>followDesiredVelocity := v\<rparr>) = core a"
  by (simp_all add: core_def)

lemma accumulate_Nil [simp]: "accumulate acc m [] = acc"
  by (simp add: accumulate_def)

lemma accumulate_Cons [simp]:
  "accumulate acc m (f # fs) = accumulate (vadd acc (Vector (vx f / m) (vy f / m))) m fs"
  by (simp add: accumulate_def)

lemma accumulate_append:
  "accumulate acc m (fs @ gs) = accumulate (accumulate acc m fs) m gs"
  by (simp add: accumulate_def)

lemma applyForce_Some:
  "mass a \<noteq> 0 \<Longrightarrow>
   applyForce a f = Some (a\<lparr>acceleration := accumulate (acceleration a) (mass a) [f]\<rparr>)"
  by (simp add: applyForce_def vdiv_def)

lemma separate_loop_core:
  assumes "core a' = core a"
  shows "separate_loop a' els s n = separate_loop a els s n"
  by (induction els arbitrary: s n) (simp_all add: core_fields [OF assms] Let_def)

lemma align_loop_core:
  assumes "core a' = core a"
  shows "align_loop a' d els s n = align_loop a d els s n"
  by (induction els arbitrary: s n) (simp_all add: core_fields [OF assms] Let_def)

lemma cohesion_loop_core:
  assumes "core a' = core a"
  shows "cohesion_loop a' d els s n = cohesion_loop a d els s n"
  by (induction els arbitrary: s n) (simp_all add: core_fields [OF assms] Let_def)

lemma steer_core:
  assumes "core a' = core a"
  shows "steer a' s = steer a s"
  by (simp add: steer_def core_fields [OF assms])

lemma seek_core:
  assumes "core a' = core a"
  shows "seek a' t = seek a t"
  by (simp add: seek_def core_fields [OF assms])

lemma accumulator_blindD:
  assumes "accumulator_blind c"
  shows "isInside c (a\<lparr>acceleration := acc\<rparr>) = isInside c a"
    and "drag c (a\<lparr>acceleration := acc\<rparr>) = drag c a"
    and "attract c (a\<lparr>acceleration := acc\<rparr>) = attract c a"
    and "getActivationForce c s (a\<lparr>acceleration := acc, sensors := ss\<rparr>) =
         getActivationForce c s a"
  using assms unfolding accumulator_blind_def by blast+

lemma accumulator_blind_sensors:
  assumes "accumulator_blind c"
  shows "getActivationForce c s (a\<lparr>sensors := ss\<rparr>) = getActivationForce c s a"
  using accumulator_blindD(4) [OF assms, where s = s and a = a and acc = "acceleration a" and ss = ss]
  by simp

lemma liquids_loop_acc:
  assumes ind: "accumulator_blind c"
  shows "mass a \<noteq> 0 \<Longrightarrow>
    liquids_loop c a ls =
      Some (a\<lparr>acceleration := accumulate (acceleration a) (mass a)
        (map (drag c a) (filter (\<lambda>l. ident a \<noteq> item_id c l \<and> isInside c a l) ls))\<rparr>)"
proof (induction ls arbitrary: a)
  case Nil
  then show ?case by simp
next
  case (Cons l ls)
  show ?case
  proof (cases "ident a \<noteq> item_id c l \<and> isInside c a l")
    case True
    define a' where "a' = a\<lparr>acceleration := accumulate (acceleration a) (mass a) [drag c a l]\<rparr>"
    have ap: "applyForce a (drag c a l) = Some a'"
      using Cons.prems by (simp add: a'_def applyForce_Some)
    have "mass a' \<noteq> 0" using Cons.prems by (simp add: a'_def)
    from Cons.IH [OF this] True ap show ?thesis
      by (simp add: a'_def accumulator_blindD [OF ind])
  next
    case False
    with Cons show ?thesis by auto
  qed
qed

lemma attract_loop_acc:
  assumes ind: "accumulator_blind c"
  shows "mass a \<noteq> 0 \<Longrightarrow>
    attract_loop c a ts =
      Some (a\<lparr>acceleration := accumulate (acceleration a) (mass a)
        (map (attract c a) (filter (\<lambda>t. ident a \<noteq> item_id c t) ts))\<rparr>)"
proof (induction ts arbitrary: a)
  case Nil
  then show ?case by simp
next
  case (Cons t ts)
  show ?case
  proof (cases "ident a \<noteq> item_id c t")
    case True
    define a' where "a' = a\<lparr>acceleration := accumulate (acceleration a) (mass a) [attract c a t]\<rparr>"
    have ap: "applyForce a (attract c a t) = Some a'"
      using Cons.prems by (simp add: a'_def applyForce_Some)
    have "mass a' \<noteq> 0" using Cons.prems by (simp add: a'_def)
    from Cons.IH [OF this] True ap show ?thesis
      by (simp add: a'_def accumulator_blindD [OF ind])
  next
    case False
    with Cons show ?thesis by auto
  qed
qed

lemma liquid_phase_acc:
  assumes "accumulator_blind c" and "mass a \<noteq> 0"
  shows "liquid_phase c sys a =
    Some (a\<lparr>acceleration := accumulate (acceleration a) (mass a) (liquid_forces c sys a)\<rparr>)"
  using liquids_loop_acc [OF assms]
  by (auto simp add: liquid_phase_def liquid_forces_def split: option.splits)

lemma attractor_phase_acc:
  assumes "accumulator_blind c" and "mass a \<noteq> 0"
  shows "attractor_phase c sys a =
    Some (a\<lparr>acceleration := accumulate (acceleration a) (mass a) (attractor_forces c sys a)\<rparr>)"
  using attract_loop_acc [OF assms]
  by (auto simp add: attractor_phase_def attractor_forces_def split: option.splits)

lemma repeller_phase_acc:
  assumes "accumulator_blind c" and "mass a \<noteq> 0"
  shows "repeller_phase c sys a =
    Some (a\<lparr>acceleration := accumulate (acceleration a) (mass a) (repeller_forces c sys a)\<rparr>)"
  using attract_loop_acc [OF assms]
  by (auto simp add: repeller_phase_def repeller_forces_def split: option.splits)

lemma place_updates [simp]:
  "place c (a\<lparr>acceleration := acc\<rparr>) i s = place c a i s"
  "place c (a\<lparr>sensors := ss\<rparr>) i s = place c a i s"
  by (simp_all add: place_def)

lemma activated_place [simp]: "activated (place c a i s) = activated s"
  by (simp add: place_def Let_def)

lemma sensor_forces_from_updates:
  assumes "accumulator_blind c"
  shows "sensor_forces_from c (a\<lparr>acceleration := acc, sensors := ss\<rparr>) i rest =
         sensor_forces_from c a i rest"
    and "sensor_forces_from c (a\<lparr>sensors := ss\<rparr>) i rest = sensor_forces_from c a i rest"
    and "sensor_forces_from c (a\<lparr>acceleration := acc\<rparr>) i rest = sensor_forces_from c a i rest"
proof -
  show "sensor_forces_from c (a\<lparr>acceleration := acc, sensors := ss\<rparr>) i rest =
         sensor_forces_from c a i rest"
    by (simp add: sensor_forces_from_def accumulator_blindD(4) [OF assms])
  show "sensor_forces_from c (a\<lparr>sensors := ss\<rparr>) i rest = sensor_forces_from c a i rest"
    by (simp add: sensor_forces_from_def accumulator_blind_sensors [OF assms])
  have "getActivationForce c s (a\<lparr>acceleration := acc\<rparr>) = getActivationForce c s a" for s
    using accumulator_blindD(4) [OF assms, where s = s and a = a and acc = acc and ss = "sensors a"]
    by simp
  then show "sensor_forces_from c (a\<lparr>acceleration := acc\<rparr>) i rest = sensor_forces_from c a i rest"
    by (simp add: sensor_forces_from_def)
qed

lemma sensor_forces_from_Cons:
  "sensor_forces_from c a i (s # rest) =
     (if activated s then [getActivationForce c (place c a i s) a] else [])
     @ sensor_forces_from c a (Suc i) rest"
  by (simp add: sensor_forces_from_def)

lemma sensors_loop_acc:
  assumes ind: "accumulator_blind c"
  shows "mass a \<noteq> 0 \<Longrightarrow>
    \<exists>a'. sensors_loop c a i rest act = Some (a', act \<or> (\<exists>s \<in> set rest. activated s))
      \<and> core a' = core a
      \<and> acceleration a' =
          accumulate (acceleration a) (mass a) (sensor_forces_from c a i rest)"
proof (induction rest arbitrary: a i act)
  case Nil
  then show ?case by (simp add: sensor_forces_from_def)
next
  case (Cons s rest)
  define s' where "s' = place c a i s"
  define a1 where "a1 = a\<lparr>sensors := (sensors a)[i := s']\<rparr>"
  have m1: "mass a1 \<noteq> 0" using Cons.prems by (simp add: a1_def)
  have unfold: "sensors_loop c a i (s # rest) act =
      (if activated s then
         do { a2 \<leftarrow> applyForce a1 (getActivationForce c s' a1);
              sensors_loop c a2 (i + 1) rest True }
       else sensors_loop c a1 (i + 1) rest act)"
    by (simp add: s'_def a1_def Let_def)
  show ?case
  proof (cases "activated s")
    case True
    define g where "g = getActivationForce c s' a"
    have g1: "getActivationForce c s' a1 = g"
      by (simp add: g_def a1_def accumulator_blind_sensors [OF ind])
    define a2 where "a2 = a1\<lparr>acceleration := accumulate (acceleration a) (mass a) [g]\<rparr>"
    have ap: "applyForce a1 g = Some a2"
      using applyForce_Some [OF m1, of g] by (simp add: a2_def a1_def)
    have m2: "mass a2 \<noteq> 0" using Cons.prems by (simp add: a2_def a1_def)
    obtain a' where
      l: "sensors_loop c a2 (i + 1) rest True = Some (a', True \<or> (\<exists>s \<in> set rest. activated s))"
      and c': "core a' = core a2"
      and acc: "acceleration a' =
        accumulate (acceleration a2) (mass a2) (sensor_forces_from c a2 (i + 1) rest)"
      using Cons.IH [OF m2, of "i + 1" True] by blast
    have f2: "sensor_forces_from c a2 (i + 1) rest = sensor_forces_from c a (Suc i) rest"
      by (simp add: a2_def a1_def sensor_forces_from_updates [OF ind])
    have "sensors_loop c a i (s # rest) act = Some (a', True)"
      unfolding unfold using True l by (simp add: g1 ap)
    moreover have "core a' = core a"
      using c' by (simp add: a2_def a1_def)
    moreover have "acceleration a' =
        accumulate (acceleration a) (mass a) (sensor_forces_from c a i (s # rest))"
      using acc [unfolded f2] True
      by (simp add: sensor_forces_from_Cons a2_def a1_def g_def s'_def)
    ultimately show ?thesis using True by auto
  next
    case False
    obtain a' where
      l: "sensors_loop c a1 (i + 1) rest act = Some (a', act \<or> (\<exists>s \<in> set rest. activated s))"
      and c': "core a' = core a1"
      and acc: "acceleration a' =
        accumulate (acceleration a1) (mass a1) (sensor_forces_from c a1 (i + 1) rest)"
      using Cons.IH [OF m1, of "i + 1" act] by blast
    have f1: "sensor_forces_from c a1 (i + 1) rest = sensor_forces_from c a (Suc i) rest"
      by (simp add: a1_def sensor_forces_from_updates [OF ind])
    have "sensors_loop c a i (s # rest) act =
        Some (a', act \<or> (\<exists>s \<in> set (s # rest). activated s))"
      unfolding unfold using False l by simp
    moreover have "core a' = core a"
      using c' by (simp add: a1_def)
    moreover have "acceleration a' =
        accumulate (acceleration a) (mass a) (sensor_forces_from c a i (s # rest))"
      using acc [unfolded f1] False by (simp add: sensor_forces_from_Cons a1_def)
    ultimately show ?thesis by blast
  qed
qed

lemma sensor_phase_acc:
  assumes "accumulator_blind c" and "mass a \<noteq> 0"
  shows "\<exists>a'. sensor_phase c a = Some (a', \<exists>s \<in> set (sensors a). activated s)
      \<and> core a' = core a
      \<and> acceleration a' = accumulate (acceleration a) (mass a) (sensor_forces c a)"
proof (cases "sensors a")
  case Nil
  then show ?thesis
    by (simp add: sensor_phase_def sensor_forces_def sensor_forces_from_def)
next
  case (Cons s ss)
  then show ?thesis
    using sensors_loop_acc [OF assms, of 0 "sensors a" False]
    by (simp add: sensor_phase_def sensor_forces_def)
qed

lemma motor_force_core:
  assumes "core a' = core a"
  shows "motor_force a' = motor_force a"
  by (simp add: motor_force_def Let_def core_fields [OF assms])

lemma motor_phase_acc:
  assumes "mass a \<noteq> 0"
  shows "\<exists>a'. motor_phase a flag = Some a' \<and> core a' = core a
      \<and> acceleration a' = accumulate (acceleration a) (mass a)
            (if \<not> flag \<and> motorSpeed a \<noteq> 0 then [motor_force a] else [])"
  using assms by (simp add: motor_phase_def applyForce_Some)

lemma mouse_forces_core:
  assumes "core a' = core a"
  shows "mouse_forces sys a' = mouse_forces sys a"
  by (simp add: mouse_forces_def core_fields [OF assms] seek_core [OF assms])

lemma mouse_phase_acc:
  assumes "mass a \<noteq> 0"
  shows "\<exists>a'. mouse_phase sys a = Some a' \<and> core a' = core a
      \<and> acceleration a' = accumulate (acceleration a) (mass a) (mouse_forces sys a)"
  using assms by (simp add: mouse_phase_def mouse_forces_def applyForce_Some Let_def)

lemma seek_forces_core:
  assumes "core a' = core a"
  shows "seek_forces a' = seek_forces a"
  by (simp add: seek_forces_def core_fields [OF assms] seek_core [OF assms]
      split: option.splits)

lemma seek_phase_acc:
  assumes "mass a \<noteq> 0"
  shows "\<exists>a'. seek_phase a = Some a' \<and> core a' = core a
      \<and> acceleration a' = accumulate (acceleration a) (mass a) (seek_forces a)"
  using assms
  by (simp add: seek_phase_def seek_forces_def applyForce_Some split: option.splits)

lemma follow_fst:
  "fst (follow a t) = vlimit (vsub (vmult t (maxSpeed a)) (velocity a)) (maxSteeringForce a)"
  by (simp add: follow_def Let_def)

lemma follow_snd: "snd (follow a t) = a\<lparr>followDesiredVelocity := fst (follow a t)\<rparr>"
  by (simp add: follow_def Let_def)

lemma follow_core:
  assumes "core a' = core a"
  shows "fst (follow a' t) = fst (follow a t)"
  by (simp add: follow_fst core_fields [OF assms])

lemma flow_forces_core:
  assumes "core a' = core a"
  shows "flow_forces a' = flow_forces a"
  by (simp add: flow_forces_def core_fields [OF assms] follow_core [OF assms]
      split: option.splits)

lemma flow_phase_acc:
  assumes "mass a \<noteq> 0"
  shows "\<exists>a'. flow_phase a = Some a' \<and> core a' = core a
      \<and> acceleration a' = accumulate (acceleration a) (mass a) (flow_forces a)"
  using assms
  by (simp add: flow_phase_def flow_forces_def applyForce_Some Let_def follow_def
      split: option.splits)

lemma separate_char:
  "\<exists>own w. separate a els =
      Some (separate_force a els, own, a\<lparr>separateSumForceVector := w\<rparr>)
    \<and> (own \<longrightarrow> w = separate_force a els)"
proof -
  obtain s c where l: "separate_loop a els (Vector 0 0) 0 = Some (s, c)"
    using separate_loop_total by blast
  show ?thesis
  proof (cases "c > 0")
    case True
    then show ?thesis
      by (intro exI [of _ True] exI [of _ "separate_force a els"])
        (simp add: separate_force_def separate_def l vdiv_def Let_def)
  next
    case False
    then show ?thesis
      by (intro exI [of _ False] exI [of _ s])
        (simp add: separate_force_def separate_def l vdiv_def Let_def)
  qed
qed

lemma align_char:
  "\<exists>own w. align a els = Some (align_force a els, own, a\<lparr>alignSumForceVector := w\<rparr>)
    \<and> (own \<longrightarrow> w = align_force a els)"
proof -
  obtain s c where l: "align_loop a (width a * 2) els (Vector 0 0) 0 = (s, c)"
    by (cases "align_loop a (width a * 2) els (Vector 0 0) 0")
  show ?thesis
  proof (cases "c > 0")
    case True
    then show ?thesis
      by (intro exI [of _ True] exI [of _ "align_force a els"])
        (simp add: align_force_def align_def l vdiv_def Let_def)
  next
    case False
    then show ?thesis
      by (intro exI [of _ False] exI [of _ s])
        (simp add: align_force_def align_def l vdiv_def Let_def)
  qed
qed

lemma cohesion_char:
  "\<exists>own w. cohesion a els =
      Some (cohesion_force a els, own, a\<lparr>cohesionSumForceVector := w\<rparr>)
    \<and> (own \<longrightarrow> w = cohesion_force a els)"
proof -
  obtain s c where l: "cohesion_loop a 10 els (Vector 0 0) 0 = (s, c)"
    by (cases "cohesion_loop a 10 els (Vector 0 0) 0")
  show ?thesis
  proof (cases "c > 0")
    case True
    then show ?thesis
      by (intro exI [of _ True] exI [of _ "cohesion_force a els"])
        (simp add: cohesion_force_def cohesion_def l vdiv_def Let_def)
  next
    case False
    then show ?thesis
      by (intro exI [of _ False] exI [of _ s])
        (simp add: cohesion_force_def cohesion_def l vdiv_def Let_def)
  qed
qed

lemma separate_force_eq:
  "separate_force a els =
     (case separate_loop a els (Vector 0 0) 0 of
        None \<Rightarrow> Vector 0 0
      | Some (s, c) \<Rightarrow>
          if c > 0 then steer a (Vector (vx s / real c) (vy s / real c)) else Vector 0 0)"
  by (simp add: separate_force_def separate_def vdiv_def Let_def split: option.splits)

lemma align_force_eq:
  "align_force a els =
     (case align_loop a (width a * 2) els (Vector 0 0) 0 of
        (s, c) \<Rightarrow>
          if c > 0 then steer a (Vector (vx s / real c) (vy s / real c)) else Vector 0 0)"
  by (simp add: align_force_def align_def vdiv_def Let_def split: prod.splits)

lemma cohesion_force_eq:
  "cohesion_force a els =
     (case cohesion_loop a 10 els (Vector 0 0) 0 of
        (s, c) \<Rightarrow>
          if c > 0 then steer a (vsub (Vector (vx s / real c) (vy s / real c)) (location a))
          else Vector 0 0)"
  by (simp add: cohesion_force_def cohesion_def vdiv_def Let_def split: prod.splits)

lemma separate_force_core:
  assumes "core a' = core a"
  shows "separate_force a' els = separate_force a els"
  by (simp add: separate_force_eq separate_loop_core [OF assms] steer_core [OF assms]
      split: option.splits prod.splits)

lemma align_force_core:
  assumes "core a' = core a"
  shows "align_force a' els = align_force a els"
  by (simp add: align_force_eq align_loop_core [OF assms] steer_core [OF assms]
      core_fields [OF assms] split: prod.splits)

lemma cohesion_force_core:
  assumes "core a' = core a"
  shows "cohesion_force a' els = cohesion_force a els"
  by (simp add: cohesion_force_eq cohesion_loop_core [OF assms] steer_core [OF assms]
      core_fields [OF assms] split: prod.splits)

lemma flock_forces_core:
  assumes "core a' = core a"
  shows "flock_forces a' els = flock_forces a els"
  by (simp add: flock_forces_def separate_force_core [OF assms] align_force_core [OF assms]
      cohesion_force_core [OF assms] core_fields [OF assms])

lemma apply_separate_acc:
  assumes m: "mass a \<noteq> 0"
  shows "\<exists>a'. apply_separate a els = Some a' \<and> core a' = core a
      \<and> acceleration a' = accumulate (acceleration a) (mass a)
            [vmult (separate_force a els) (separateStrength a)]"
proof -
  obtain own w where
    s: "separate a els = Some (separate_force a els, own, a\<lparr>separateSumForceVector := w\<rparr>)"
    using separate_char by blast
  show ?thesis
    using m by (cases own) (simp_all add: apply_separate_def s Let_def applyForce_Some)
qed

lemma apply_align_acc:
  assumes m: "mass a \<noteq> 0"
  shows "\<exists>a'. apply_align a els = Some a' \<and> core a' = core a
      \<and> acceleration a' = accumulate (acceleration a) (mass a)
            [vmult (align_force a els) (alignStrength a)]"
proof -
  obtain own w where
    s: "align a els = Some (align_force a els, own, a\<lparr>alignSumForceVector := w\<rparr>)"
    using align_char by blast
  show ?thesis
    using m by (cases own) (simp_all add: apply_align_def s Let_def applyForce_Some)
qed

lemma apply_cohesion_acc:
  assumes m: "mass a \<noteq> 0"
  shows "\<exists>a'. apply_cohesion a els = Some a' \<and> core a' = core a
      \<and> acceleration a' = accumulate (acceleration a) (mass a)
            [vmult (cohesion_force a els) (cohesionStrength a)]"
proof -
  obtain own w where
    s: "cohesion a els = Some (cohesion_force a els, own, a\<lparr>cohesionSumForceVector := w\<rparr>)"
    using cohesion_char by blast
  show ?thesis
    using m by (cases own) (simp_all add: apply_cohesion_def s Let_def applyForce_Some)
qed

lemma flock_acc:
  assumes m: "mass a \<noteq> 0"
  shows "\<exists>a'. flock a els = Some (acceleration a', a') \<and> core a' = core a
      \<and> acceleration a' = accumulate (acceleration a) (mass a) (flock_forces a els)"
proof -
  obtain a1 where s1: "apply_separate a els = Some a1" and c1: "core a1 = core a"
    and acc1: "acceleration a1 = accumulate (acceleration a) (mass a)
      [vmult (separate_force a els) (separateStrength a)]"
    using apply_separate_acc [OF m] by blast
  have m1: "mass a1 \<noteq> 0" using m by (simp add: core_fields [OF c1])
  obtain a2 where s2: "apply_align a1 els = Some a2" and c2': "core a2 = core a1"
    and acc2': "acceleration a2 = accumulate (acceleration a1) (mass a1)
      [vmult (align_force a1 els) (alignStrength a1)]"
    using apply_align_acc [OF m1] by blast
  have c2: "core a2 = core a" using c2' c1 by simp
  have m2: "mass a2 \<noteq> 0" using m by (simp add: core_fields [OF c2])
  obtain a3 where s3: "apply_cohesion a2 els = Some a3" and c3': "core a3 = core a2"
    and acc3': "acceleration a3 = accumulate (acceleration a2) (mass a2)
      [vmult (cohesion_force a2 els) (cohesionStrength a2)]"
    using apply_cohesion_acc [OF m2] by blast
  have c3: "core a3 = core a" using c3' c2 by simp
  have "flock a els = Some (acceleration a3, a3)"
    by (simp add: flock_def s1 s2 s3)
  moreover have "acceleration a3 = accumulate (acceleration a) (mass a) (flock_forces a els)"
    unfolding acc3' acc2' acc1
    by (simp add: flock_forces_def core_fields [OF c1] core_fields [OF c2]
        align_force_core [OF c1] cohesion_force_core [OF c2])
  ultimately show ?thesis using c3 by blast
qed

lemma flocking_forces_core:
  assumes "core a' = core a"
  shows "flocking_forces sys a' = flocking_forces sys a"
  by (simp add: flocking_forces_def flock_forces_core [OF assms] core_fields [OF assms])

lemma flock_phase_acc:
  assumes m: "mass a \<noteq> 0"
  shows "\<exists>a'. flock_phase sys a = Some a' \<and> core a' = core a
      \<and> acceleration a' = accumulate (acceleration a) (mass a) (flocking_forces sys a)"
proof (cases "flocking a")
  case True
  obtain a' where "flock a (agents sys) = Some (acceleration a', a')" "core a' = core a"
    "acceleration a' = accumulate (acceleration a) (mass a) (flock_forces a (agents sys))"
    using flock_acc [OF m] by blast
  with True show ?thesis by (simp add: flock_phase_def flocking_forces_def)
next
  case False
  then show ?thesis by (simp add: flock_phase_def flocking_forces_def)
qed

lemma point_forces_update:
  assumes "accumulator_blind c"
  shows "attractor_forces c sys (a\<lparr>acceleration := acc\<rparr>) = attractor_forces c sys a"
    and "repeller_forces c sys (a\<lparr>acceleration := acc\<rparr>) = repeller_forces c sys a"
  by (simp_all add: attractor_forces_def repeller_forces_def accumulator_blindD [OF assms]
      split: option.splits)

lemma sensor_forces_update:
  assumes "accumulator_blind c"
  shows "sensor_forces c (a\<lparr>acceleration := acc\<rparr>) = sensor_forces c a"
  by (simp add: sensor_forces_def sensor_forces_from_updates(3) [OF assms])

lemma applyForces_acc:
  assumes ind: "accumulator_blind c" and m: "mass a \<noteq> 0"
  shows "\<exists>a'. applyForces c sys a = Some (acceleration a', a') \<and> core a' = core a
      \<and> acceleration a' = accumulate (acceleration a) (mass a) (contributions c sys a)"
proof -
  define A1 where "A1 = accumulate (acceleration a) (mass a) (liquid_forces c sys a)"
  define A2 where "A2 = accumulate A1 (mass a) (attractor_forces c sys a)"
  define A3 where "A3 = accumulate A2 (mass a) (repeller_forces c sys a)"
  define a1 where "a1 = a\<lparr>acceleration := A1\<rparr>"
  define a2 where "a2 = a\<lparr>acceleration := A2\<rparr>"
  define a3 where "a3 = a\<lparr>acceleration := A3\<rparr>"
  have m1: "mass a1 \<noteq> 0" and m2: "mass a2 \<noteq> 0" and m3: "mass a3 \<noteq> 0"
    using m by (simp_all add: a1_def a2_def a3_def)
  have p1: "liquid_phase c sys a = Some a1"
    using liquid_phase_acc [OF ind m] by (simp add: a1_def A1_def)
  have p2: "attractor_phase c sys a1 = Some a2"
    using attractor_phase_acc [OF ind m1, of sys]
    by (simp add: a1_def a2_def A2_def point_forces_update [OF ind])
  have p3: "repeller_phase c sys a2 = Some a3"
    using repeller_phase_acc [OF ind m2, of sys]
    by (simp add: a2_def a3_def A3_def point_forces_update [OF ind])
  define flag where "flag = (\<exists>s \<in> set (sensors a). activated s)"
  obtain a4 where p4: "sensor_phase c a3 = Some (a4, flag)" and c4: "core a4 = core a"
    and acc4: "acceleration a4 = accumulate A3 (mass a) (sensor_forces c a)"
    using sensor_phase_acc [OF ind m3]
    by (auto simp add: a3_def flag_def sensor_forces_update [OF ind])
  have m4: "mass a4 \<noteq> 0" using m by (simp add: core_fields [OF c4])
  have mf: "(if \<not> flag \<and> motorSpeed a4 \<noteq> 0 then [motor_force a4] else []) = motor_forces a"
    by (simp add: motor_forces_def flag_def core_fields [OF c4] motor_force_core [OF c4])
  obtain a5 where p5: "motor_phase a4 flag = Some a5" and c5': "core a5 = core a4"
    and acc5: "acceleration a5 = accumulate (acceleration a4) (mass a4) (motor_forces a)"
    using motor_phase_acc [OF m4, of flag] unfolding mf by blast
  have c5: "core a5 = core a" using c5' c4 by simp
  have m5: "mass a5 \<noteq> 0" using m by (simp add: core_fields [OF c5])
  obtain a6 where p6: "mouse_phase sys a5 = Some a6" and c6': "core a6 = core a5"
    and acc6: "acceleration a6 = accumulate (acceleration a5) (mass a5) (mouse_forces sys a5)"
    using mouse_phase_acc [OF m5] by blast
  have c6: "core a6 = core a" using c6' c5 by simp
  have m6: "mass a6 \<noteq> 0" using m by (simp add: core_fields [OF c6])
  obtain a7 where p7: "seek_phase a6 = Some a7" and c7': "core a7 = core a6"
    and acc7: "acceleration a7 = accumulate (acceleration a6) (mass a6) (seek_forces a6)"
    using seek_phase_acc [OF m6] by blast
  have c7: "core a7 = core a" using c7' c6 by simp
  have m7: "mass a7 \<noteq> 0" using m by (simp add: core_fields [OF c7])
  obtain a8 where p8: "flow_phase a7 = Some a8" and c8': "core a8 = core a7"
    and acc8: "acceleration a8 = accumulate (acceleration a7) (mass a7) (flow_forces a7)"
    using flow_phase_acc [OF m7] by blast
  have c8: "core a8 = core a" using c8' c7 by simp
  have m8: "mass a8 \<noteq> 0" using m by (simp add: core_fields [OF c8])
  obtain a9 where p9: "flock_phase sys a8 = Some a9" and c9': "core a9 = core a8"
    and acc9: "acceleration a9 = accumulate (acceleration a8) (mass a8) (flocking_forces sys a8)"
    using flock_phase_acc [OF m8] by blast
  have c9: "core a9 = core a" using c9' c8 by simp
  have run: "applyForces c sys a = Some (acceleration a9, a9)"
    by (simp add: applyForces_def p1 p2 p3 p4 p5 p6 p7 p8 p9)
  have "acceleration a9 = accumulate (acceleration a) (mass a) (contributions c sys a)"
    unfolding acc9 acc8 acc7 acc6 acc5 acc4 A3_def A2_def A1_def contributions_def
      accumulate_append
      core_fields(5) [OF c8] core_fields(5) [OF c7] core_fields(5) [OF c6]
      core_fields(5) [OF c5] core_fields(5) [OF c4]
      flocking_forces_core [OF c8] flow_forces_core [OF c7] seek_forces_core [OF c6]
      mouse_forces_core [OF c5]
    by (rule refl)
  with run c9 show ?thesis by blast
qed

subsection \<open>Bounds and special cases\<close>

lemma mag_eq_0_iff: "mag v = 0 \<longleftrightarrow> v = Vector 0 0"
proof -
  have "mag v = 0 \<longleftrightarrow> vx v = 0 \<and> vy v = 0"
    by (simp add: mag_def sum_squares_eq_zero_iff)
  also have "\<dots> \<longleftrightarrow> v = Vector 0 0"
    by (cases v) (simp add: Vector_def)
  finally show ?thesis .
qed

lemma vmult_zero [simp]: "vmult v 0 = Vector 0 0"
  by (simp add: vmult_def)

lemma vlimit_eq_0_iff:
  assumes "0 \<le> h"
  shows "vlimit v h = Vector 0 0 \<longleftrightarrow> h = 0 \<or> v = Vector 0 0"
proof (cases "mag v > h")
  case True
  then have nz: "mag v \<noteq> 0" using assms by linarith
  have "mag (vlimit v h) = h"
    using True assms by (simp add: vlimit_def mag_vmult mag_vnormalize [OF nz])
  moreover have "v \<noteq> Vector 0 0" using nz by (simp add: mag_eq_0_iff)
  ultimately show ?thesis
    using True by (auto simp add: vlimit_def mag_eq_0_iff [symmetric])
next
  case False
  then have "vlimit v h = v" by (simp add: vlimit_def)
  moreover have "h = 0 \<Longrightarrow> v = Vector 0 0"
    using False mag_nonneg [of v] by (simp add: mag_eq_0_iff [symmetric])
  ultimately show ?thesis by auto
qed

lemma vsub_eq_0_iff: "vsub v w = Vector 0 0 \<longleftrightarrow> v = w"
  by (cases v, cases w) (simp add: vsub_def Vector_def)

lemma mag_vmult_bound:
  assumes "0 \<le> k" and "mag v \<le> h"
  shows "mag (vmult v k) \<le> k * h"
  using assms by (simp add: mag_vmult mult_left_mono)

lemma separate_force_bounded:
  assumes "0 \<le> maxSteeringForce a"
  shows "mag (separate_force a els) \<le> maxSteeringForce a"
  using separate_bounded [OF assms, of els] by (auto simp add: separate_force_def)

lemma align_force_bounded:
  assumes "0 \<le> maxSteeringForce a"
  shows "mag (align_force a els) \<le> maxSteeringForce a"
  using align_bounded [OF assms, of els] by (auto simp add: align_force_def)

lemma cohesion_force_bounded:
  assumes "0 \<le> maxSteeringForce a"
  shows "mag (cohesion_force a els) \<le> maxSteeringForce a"
  using cohesion_bounded [OF assms, of els] by (auto simp add: cohesion_force_def)

lemma sensor_forces_none:
  assumes "\<forall>s \<in> set ss. \<not> activated s"
  shows "sensor_forces_from c a i ss = []"
proof -
  have "filter (\<lambda>(j, s). activated s) (enumerate i ss) = []"
    using assms by (auto simp add: filter_empty_conv in_set_enumerate_eq)
  then show ?thesis by (simp add: sensor_forces_from_def)
qed

lemma constant_forces_blind: "accumulator_blind still_collaborators"
  by (simp add: accumulator_blind_def still_collaborators_def)


subsection \<open>The claims\<close>

text \<open>
  Claim C1, as amended. When the agent's cell lies in a column of the flow field that
  exists but holds no vector for the row, \<open>applyForces\<close> follows the agent's own location:
  the target vector is set to the location, and the force applied is
  \<open>location \<times> maxSpeed \<minus> velocity\<close> clamped to \<open>maxSteeringForce\<close>. For
  \<open>maxSteeringForce \<ge> 0\<close> it is the zero vector exactly when \<open>maxSteeringForce\<close> is 0 or
  \<open>location \<times> maxSpeed\<close> equals the velocity; it is not zero in general.
\<close>

theorem flow_fallback:
  assumes "flowField a = Some ff" and "resolution ff \<noteq> 0"
    and "field ff \<lfloor>vx (location a) / resolution ff\<rfloor> = Some column"
    and "column \<lfloor>vy (location a) / resolution ff\<rfloor> = None"
  shows "flow_phase a =
      applyForce
        (a\<lparr>followTargetVector := location a,
           followDesiredVelocity :=
             vlimit (vsub (vmult (location a) (maxSpeed a)) (velocity a)) (maxSteeringForce a)\<rparr>)
        (vlimit (vsub (vmult (location a) (maxSpeed a)) (velocity a)) (maxSteeringForce a))
    \<and> (0 \<le> maxSteeringForce a \<longrightarrow>
         (vlimit (vsub (vmult (location a) (maxSpeed a)) (velocity a)) (maxSteeringForce a)
            = Vector 0 0
          \<longleftrightarrow> maxSteeringForce a = 0 \<or> vmult (location a) (maxSpeed a) = velocity a))"
  using assms
  by (simp add: flow_phase_def Let_def follow_def vlimit_eq_0_iff vsub_eq_0_iff)

theorem flow_fallback_witness:
  "flowField field_agent = Some hollow_field \<and> resolution hollow_field \<noteq> 0
   \<and> field hollow_field \<lfloor>vx (location field_agent) / resolution hollow_field\<rfloor>
       = Some (\<lambda>row. None)
   \<and> 0 \<le> maxSteeringForce field_agent
   \<and> flow_phase field_agent =
       applyForce
         (field_agent\<lparr>followTargetVector := Vector 1 0, followDesiredVelocity := Vector 1 0\<rparr>)
         (Vector 1 0)"
proof -
  have 0: "0 \<le> maxSteeringForce field_agent"
    by (simp add: field_agent_def agent0_def)
  have 1: "flowField field_agent = Some hollow_field"
    by (simp add: field_agent_def)
  have 2: "resolution hollow_field \<noteq> 0"
    by (simp add: hollow_field_def)
  have 3: "field hollow_field \<lfloor>vx (location field_agent) / resolution hollow_field\<rfloor>
      = Some (\<lambda>row. None)"
    by (simp add: hollow_field_def field_agent_def)
  have 4: "(\<lambda>row::int. None :: vector option) \<lfloor>vy (location field_agent) / resolution hollow_field\<rfloor> = None"
    by simp
  have 5: "vlimit (vsub (vmult (Vector 1 0) (maxSpeed field_agent))
      (velocity field_agent)) (maxSteeringForce field_agent) = Vector 1 0"
    by (simp add: field_agent_def agent0_def vlimit_def vsub_def vmult_def mag_def)
  have 6: "location field_agent = Vector 1 0"
    by (simp add: field_agent_def)
  show ?thesis
    using 0 1 2 3 flow_fallback [OF 1 2 3 4] unfolding 6 5 by simp
qed

text \<open>
  The claim as stated fails: an agent at rest at \<open>(1, 0)\<close> with top speed 1, in a column
  without a vector for its row, receives the force \<open>(1, 0)\<close>.
\<close>

theorem flow_fallback_counterexample:
  "flowField field_agent = Some hollow_field
   \<and> field hollow_field \<lfloor>vx (location field_agent) / resolution hollow_field\<rfloor>
       = Some (\<lambda>row. None)
   \<and> flow_phase field_agent =
       Some (field_agent\<lparr>followTargetVector := Vector 1 0,
               followDesiredVelocity := Vector 1 0, acceleration := Vector 1 0\<rparr>)
   \<and> acceleration field_agent = Vector 0 0
   \<and> fst (follow (field_agent\<lparr>followTargetVector := location field_agent\<rparr>)
        (location field_agent)) \<noteq> Vector 0 0"
  by (simp add: field_agent_def hollow_field_def agent0_def flow_phase_def Let_def follow_def
      vlimit_def vsub_def vmult_def mag_def applyForce_def vdiv_def vadd_def)

text \<open>
  Claim C2, as amended. For an agent with \<open>maxSteeringForce \<ge> 0\<close> and strengths \<open>\<ge> 0\<close>,
  \<open>flock\<close> applies three forces in order: what \<open>separate\<close>, \<open>align\<close> and \<open>cohesion\<close>
  return, each scaled by its strength after it was clamped. Each has magnitude at most
  its strength times \<open>maxSteeringForce\<close>, and so at most \<open>maxSteeringForce\<close> when its
  strength is at most 1.
\<close>

theorem flock_contributions_bounded:
  assumes "0 \<le> maxSteeringForce a" and "mass a \<noteq> 0"
    and "0 \<le> separateStrength a" and "0 \<le> alignStrength a" and "0 \<le> cohesionStrength a"
  shows "(\<exists>a'. flock a elements = Some (acceleration a', a')
        \<and> acceleration a' = accumulate (acceleration a) (mass a)
            [vmult (separate_force a elements) (separateStrength a),
             vmult (align_force a elements) (alignStrength a),
             vmult (cohesion_force a elements) (cohesionStrength a)])
    \<and> mag (vmult (separate_force a elements) (separateStrength a))
        \<le> separateStrength a * maxSteeringForce a
    \<and> mag (vmult (align_force a elements) (alignStrength a))
        \<le> alignStrength a * maxSteeringForce a
    \<and> mag (vmult (cohesion_force a elements) (cohesionStrength a))
        \<le> cohesionStrength a * maxSteeringForce a
    \<and> (separateStrength a \<le> 1 \<longrightarrow>
         mag (vmult (separate_force a elements) (separateStrength a)) \<le> maxSteeringForce a)
    \<and> (alignStrength a \<le> 1 \<longrightarrow>
         mag (vmult (align_force a elements) (alignStrength a)) \<le> maxSteeringForce a)
    \<and> (cohesionStrength a \<le> 1 \<longrightarrow>
         mag (vmult (cohesion_force a elements) (cohesionStrength a)) \<le> maxSteeringForce a)"
proof -
  have run: "\<exists>a'. flock a elements = Some (acceleration a', a')
        \<and> acceleration a' = accumulate (acceleration a) (mass a)
            [vmult (separate_force a elements) (separateStrength a),
             vmult (align_force a elements) (alignStrength a),
             vmult (cohesion_force a elements) (cohesionStrength a)]"
    using flock_acc [OF assms(2), of elements] unfolding flock_forces_def by blast
  have s: "mag (vmult (separate_force a elements) (separateStrength a))
        \<le> separateStrength a * maxSteeringForce a"
    by (rule mag_vmult_bound [OF assms(3) separate_force_bounded [OF assms(1)]])
  have al: "mag (vmult (align_force a elements) (alignStrength a))
        \<le> alignStrength a * maxSteeringForce a"
    by (rule mag_vmult_bound [OF assms(4) align_force_bounded [OF assms(1)]])
  have co: "mag (vmult (cohesion_force a elements) (cohesionStrength a))
        \<le> cohesionStrength a * maxSteeringForce a"
    by (rule mag_vmult_bound [OF assms(5) cohesion_force_bounded [OF assms(1)]])
  have le: "k * maxSteeringForce a \<le> maxSteeringForce a" if "k \<le> 1" for k
    using mult_right_mono [OF that assms(1)] by simp
  have s1: "separateStrength a \<le> 1 \<longrightarrow>
      mag (vmult (separate_force a elements) (separateStrength a)) \<le> maxSteeringForce a"
    using s le [of "separateStrength a"] by linarith
  have al1: "alignStrength a \<le> 1 \<longrightarrow>
      mag (vmult (align_force a elements) (alignStrength a)) \<le> maxSteeringForce a"
    using al le [of "alignStrength a"] by linarith
  have co1: "cohesionStrength a \<le> 1 \<longrightarrow>
      mag (vmult (cohesion_force a elements) (cohesionStrength a)) \<le> maxSteeringForce a"
    using co le [of "cohesionStrength a"] by linarith
  show ?thesis
    using run s al co s1 al1 co1 by (intro conjI)
qed

theorem flock_contributions_bounded_witness:
  "0 \<le> maxSteeringForce agent0 \<and> mass agent0 \<noteq> 0 \<and> 0 \<le> separateStrength agent0
   \<and> 0 \<le> alignStrength agent0 \<and> 0 \<le> cohesionStrength agent0
   \<and> alignStrength agent0 \<le> 1 \<and> cohesionStrength agent0 \<le> 1
   \<and> (\<exists>a'. flock agent0 [agent0, agent1] = Some (acceleration a', a')
         \<and> acceleration a' = accumulate (acceleration agent0) (mass agent0)
             [vmult (separate_force agent0 [agent0, agent1]) (separateStrength agent0),
              vmult (align_force agent0 [agent0, agent1]) (alignStrength agent0),
              vmult (cohesion_force agent0 [agent0, agent1]) (cohesionStrength agent0)])
   \<and> mag (vmult (separate_force agent0 [agent0, agent1]) (separateStrength agent0)) \<le> 2 * 1
   \<and> mag (vmult (align_force agent0 [agent0, agent1]) (alignStrength agent0)) \<le> 1
   \<and> mag (vmult (cohesion_force agent0 [agent0, agent1]) (cohesionStrength agent0)) \<le> 1"
proof -
  have h: "0 \<le> maxSteeringForce agent0" "mass agent0 \<noteq> 0" "0 \<le> separateStrength agent0"
    "0 \<le> alignStrength agent0" "0 \<le> cohesionStrength agent0"
    by (simp_all add: agent0_def)
  have v: "maxSteeringForce agent0 = 1" "separateStrength agent0 = 2"
    "alignStrength agent0 = 1" "cohesionStrength agent0 = 1"
    by (simp_all add: agent0_def)
  show ?thesis
    using h flock_contributions_bounded [OF h, of "[agent0, agent1]"]
    by (simp add: v)
qed

text \<open>
  The claim as stated fails for a strength above 1: with \<open>separateStrength = 2\<close> and
  \<open>maxSteeringForce = 1\<close>, a neighbour one unit away makes \<open>separate\<close> return \<open>(-1, 0)\<close>,
  and the force applied is \<open>(-2, 0)\<close>, of magnitude 2.
\<close>

theorem flock_contributions_counterexample:
  "0 \<le> separateStrength agent0 \<and> 0 \<le> alignStrength agent0 \<and> 0 \<le> cohesionStrength agent0
   \<and> 0 \<le> maxSteeringForce agent0
   \<and> separate agent0 [agent0, agent1] =
       Some (Vector (- 1) 0, True, agent0\<lparr>separateSumForceVector := Vector (- 1) 0\<rparr>)
   \<and> apply_separate agent0 [agent0, agent1] =
       Some (agent0\<lparr>separateSumForceVector := Vector (- 2) 0, acceleration := Vector (- 2) 0\<rparr>)
   \<and> \<not> mag (vmult (Vector (- 1) 0) (separateStrength agent0)) \<le> maxSteeringForce agent0"
  by (simp add: agent0_def agent1_def separate_def apply_separate_def steer_def Let_def
      distance_def VectorSub_def vnormalize_def vdiv_def vadd_def vmult_def vsub_def vlimit_def
      mag_def applyForce_def)

text \<open>
  Claim C3. For an agent with \<open>maxSteeringForce \<ge> 0\<close>, whatever the target and the
  neighbours, each of \<open>_seek\<close>, \<open>follow\<close>, \<open>separate\<close>, \<open>align\<close> and \<open>cohesion\<close> returns a
  vector of magnitude at most \<open>maxSteeringForce\<close>; the three flocking behaviours always
  return (no division by zero occurs in them).
\<close>

theorem steering_clamped:
  assumes "0 \<le> maxSteeringForce a"
  shows "mag (seek a target) \<le> maxSteeringForce a
    \<and> mag (fst (follow a target)) \<le> maxSteeringForce a
    \<and> (\<exists>v own a'. separate a elements = Some (v, own, a') \<and> mag v \<le> maxSteeringForce a)
    \<and> (\<exists>v own a'. align a elements = Some (v, own, a') \<and> mag v \<le> maxSteeringForce a)
    \<and> (\<exists>v own a'. cohesion a elements = Some (v, own, a') \<and> mag v \<le> maxSteeringForce a)"
proof -
  have "mag (seek a target) \<le> maxSteeringForce a"
    using assms by (simp add: seek_def Let_def mag_vlimit)
  moreover have "mag (fst (follow a target)) \<le> maxSteeringForce a"
    using assms by (simp add: follow_def Let_def mag_vlimit)
  ultimately show ?thesis
    using separate_bounded [OF assms] align_bounded [OF assms] cohesion_bounded [OF assms]
    by blast
qed

theorem steering_clamped_witness:
  "0 \<le> maxSteeringForce agent0
   \<and> mag (seek agent0 (Vector 3 4)) \<le> 1
   \<and> mag (fst (follow agent0 (Vector 3 4))) \<le> 1
   \<and> (\<exists>v own a'. separate agent0 [agent0, agent1] = Some (v, own, a') \<and> mag v \<le> 1)
   \<and> (\<exists>v own a'. align agent0 [agent0, agent1] = Some (v, own, a') \<and> mag v \<le> 1)
   \<and> (\<exists>v own a'. cohesion agent0 [agent0, agent1] = Some (v, own, a') \<and> mag v \<le> 1)"
proof -
  have h: "0 \<le> maxSteeringForce agent0" by (simp add: agent0_def)
  have m: "maxSteeringForce agent0 = 1" by (simp add: agent0_def)
  show ?thesis
    using h steering_clamped [OF h, of "Vector 3 4" "[agent0, agent1]"] unfolding m by simp
qed

text \<open>
  Claim C4. An agent \<open>b\<close> at exactly the location of \<open>a\<close> is at distance 0, so the guard
  \<open>d > 0\<close> keeps it out of the accumulation of \<open>separate\<close>: the result is the one obtained
  without \<open>b\<close> in the list. No division by zero occurs and a vector is returned (here for
  any list that holds \<open>b\<close>, of whatever kind and for whatever desired separation); for the
  two agents alone the vector is the zero vector.
\<close>

theorem separate_same_location:
  assumes "location b = location a"
  shows "distance (location a) (location b) = 0
    \<and> separate a (pre @ b # post) = separate a (pre @ post)
    \<and> (\<exists>v own a'. separate a (pre @ b # post) = Some (v, own, a'))
    \<and> (\<exists>a'. separate a [a, b] = Some (Vector 0 0, False, a'))"
proof -
  have "separate a (pre @ b # post) = separate a (pre @ post)"
    using separate_loop_skip [OF assms] by (simp add: separate_def)
  moreover have "\<exists>a'. separate a [a, b] = Some (Vector 0 0, False, a')"
    using assms by (simp add: separate_def Let_def)
  ultimately show ?thesis
    using assms separate_total [of a "pre @ b # post"] by simp
qed

theorem separate_same_location_witness:
  "location agent2 = location agent0 \<and> className agent2 = className agent0
   \<and> ident agent2 \<noteq> ident agent0 \<and> 0 < desiredSeparation agent0
   \<and> distance (location agent0) (location agent2) = 0
   \<and> separate agent0 ([agent0] @ agent2 # [agent1]) = separate agent0 ([agent0] @ [agent1])
   \<and> (\<exists>v own a'. separate agent0 ([agent0] @ agent2 # [agent1]) = Some (v, own, a'))
   \<and> (\<exists>a'. separate agent0 [agent0, agent2] = Some (Vector 0 0, False, a'))"
proof -
  have h: "location agent2 = location agent0" by (simp add: agent2_def)
  have "className agent2 = className agent0 \<and> ident agent2 \<noteq> ident agent0
    \<and> 0 < desiredSeparation agent0"
    by (simp add: agent2_def agent0_def)
  then show ?thesis
    using h separate_same_location [OF h, of "[agent0]" "[agent1]"] by blast
qed

text \<open>
  Claim C5. On an empty list of elements, or on the list that holds the agent alone,
  each of \<open>separate\<close>, \<open>align\<close> and \<open>cohesion\<close> returns the zero vector (a new vector, not
  the scratch one).
\<close>

theorem flocking_alone:
  assumes "elements = [] \<or> elements = [a]"
  shows "(\<exists>a'. separate a elements = Some (Vector 0 0, False, a'))
    \<and> (\<exists>a'. align a elements = Some (Vector 0 0, False, a'))
    \<and> (\<exists>a'. cohesion a elements = Some (Vector 0 0, False, a'))"
  using assms
  by (auto simp add: separate_def align_def cohesion_def Let_def)

theorem flocking_alone_witness:
  "(\<exists>a'. separate agent0 [agent0] = Some (Vector 0 0, False, a'))
   \<and> (\<exists>a'. align agent0 [agent0] = Some (Vector 0 0, False, a'))
   \<and> (\<exists>a'. cohesion agent0 [agent0] = Some (Vector 0 0, False, a'))"
  using flocking_alone [of "[agent0]" agent0] by simp

text \<open>
  Claim C6. For an agent with \<open>motorSpeed\<close> other than 0 and no activated sensor (and
  a mass other than 0), \<open>applyForces\<close> applies, after the forces of the liquids,
  attractors and repellers and before those of the pointer, the seek target, the flow
  field and the flock, the normalized velocity scaled by \<open>\<minus>motorSpeed\<close> when the speed
  exceeds \<open>motorSpeed\<close> and by \<open>motorSpeed\<close> otherwise.
\<close>

theorem motor_force_applied:
  assumes "accumulator_blind c" and "mass a \<noteq> 0"
    and "motorSpeed a \<noteq> 0" and "\<forall>s \<in> set (sensors a). \<not> activated s"
  shows "\<exists>a'. applyForces c sys a = Some (acceleration a', a')
      \<and> acceleration a' = accumulate (acceleration a) (mass a)
          (liquid_forces c sys a @ attractor_forces c sys a @ repeller_forces c sys a
           @ [vmult (vnormalize (velocity a))
                (if mag (velocity a) > motorSpeed a then - motorSpeed a else motorSpeed a)]
           @ mouse_forces sys a @ seek_forces a @ flow_forces a @ flocking_forces sys a)"
proof -
  have s: "sensor_forces c a = []"
    using assms(4) by (simp add: sensor_forces_def sensor_forces_none)
  have mo: "motor_forces a =
      [vmult (vnormalize (velocity a))
         (if mag (velocity a) > motorSpeed a then - motorSpeed a else motorSpeed a)]"
    using assms(3,4) by (simp add: motor_forces_def motor_force_def clone_def Let_def)
  show ?thesis
    using applyForces_acc [OF assms(1,2), of sys] unfolding contributions_def s mo by auto
qed

theorem motor_force_applied_witness:
  "accumulator_blind still_collaborators \<and> mass cruiser \<noteq> 0 \<and> motorSpeed cruiser \<noteq> 0
   \<and> sensors cruiser = [] \<and> \<not> mag (velocity cruiser) > motorSpeed cruiser
   \<and> vmult (vnormalize (velocity cruiser)) (motorSpeed cruiser) = Vector 2 0
   \<and> (\<exists>a'. applyForces still_collaborators empty_system cruiser = Some (acceleration a', a')
         \<and> acceleration a' = Vector 2 0)"
proof -
  have m: "mass cruiser \<noteq> 0" and ms: "motorSpeed cruiser \<noteq> 0"
    and se: "\<forall>s \<in> set (sensors cruiser). \<not> activated s"
    by (simp_all add: cruiser_def agent0_def)
  have mg: "mag (velocity cruiser) = 1" "motorSpeed cruiser = 2"
    by (simp_all add: cruiser_def agent0_def mag_def)
  have f: "vmult (vnormalize (velocity cruiser)) (motorSpeed cruiser) = Vector 2 0"
    by (simp add: cruiser_def agent0_def vnormalize_def mag_def vmult_def Let_def)
  have rest: "liquid_forces still_collaborators empty_system cruiser = []"
    "attractor_forces still_collaborators empty_system cruiser = []"
    "repeller_forces still_collaborators empty_system cruiser = []"
    "mouse_forces empty_system cruiser = []"
    "seek_forces cruiser = []" "flow_forces cruiser = []"
    "flocking_forces empty_system cruiser = []"
    by (simp_all add: liquid_forces_def attractor_forces_def repeller_forces_def
        mouse_forces_def seek_forces_def flow_forces_def flocking_forces_def empty_system_def
        cruiser_def agent0_def)
  have acc: "acceleration cruiser = Vector 0 0" "mass cruiser = 1" "sensors cruiser = []"
    by (simp_all add: cruiser_def agent0_def)
  have g: "\<not> mag (velocity cruiser) > motorSpeed cruiser"
    by (simp add: mg)
  show ?thesis
    using constant_forces_blind m ms g f
      motor_force_applied [OF constant_forces_blind m ms se, of empty_system]
    unfolding rest
    by (simp add: acc mg f vadd_def)
qed

text \<open>
  Claim C7. \<open>applyForces\<close> returns the acceleration, which is the acceleration it
  started from plus \<open>f / mass\<close> for each force \<open>f\<close> of the behaviours, taken in the order:
  liquids, attractors, repellers, sensors (in the order of the list), motor, pointer, seek
  target, flow field, flock. A behaviour whose condition is false or whose list is empty
  has no force in the list. The mass is not 0 and the collaborators' forces are functions
  of the agent's kinematic state (\<open>accumulator_blind\<close>).
\<close>

theorem applyForces_ordered_additive:
  assumes "accumulator_blind c" and "mass a \<noteq> 0"
  shows "(\<exists>a'. applyForces c sys a = Some (acceleration a', a')
        \<and> acceleration a' = accumulate (acceleration a) (mass a)
            (liquid_forces c sys a @ attractor_forces c sys a @ repeller_forces c sys a
             @ sensor_forces c a @ motor_forces a @ mouse_forces sys a @ seek_forces a
             @ flow_forces a @ flocking_forces sys a))
    \<and> (liquids sys = None \<or> liquids sys = Some [] \<longrightarrow> liquid_forces c sys a = [])
    \<and> (attractors sys = None \<or> attractors sys = Some [] \<longrightarrow> attractor_forces c sys a = [])
    \<and> (repellers sys = None \<or> repellers sys = Some [] \<longrightarrow> repeller_forces c sys a = [])
    \<and> ((\<forall>s \<in> set (sensors a). \<not> activated s) \<longrightarrow> sensor_forces c a = [])
    \<and> (motorSpeed a = 0 \<or> (\<exists>s \<in> set (sensors a). activated s) \<longrightarrow> motor_forces a = [])
    \<and> (\<not> followMouse a \<or> touch sys \<longrightarrow> mouse_forces sys a = [])
    \<and> (seekTarget a = None \<longrightarrow> seek_forces a = [])
    \<and> (flowField a = None \<longrightarrow> flow_forces a = [])
    \<and> (\<not> flocking a \<longrightarrow> flocking_forces sys a = [])"
proof -
  have run: "\<exists>a'. applyForces c sys a = Some (acceleration a', a')
        \<and> acceleration a' = accumulate (acceleration a) (mass a)
            (liquid_forces c sys a @ attractor_forces c sys a @ repeller_forces c sys a
             @ sensor_forces c a @ motor_forces a @ mouse_forces sys a @ seek_forces a
             @ flow_forces a @ flocking_forces sys a)"
    using applyForces_acc [OF assms, of sys] unfolding contributions_def by blast
  have 1: "liquids sys = None \<or> liquids sys = Some [] \<longrightarrow> liquid_forces c sys a = []"
    by (auto simp add: liquid_forces_def)
  have 2: "attractors sys = None \<or> attractors sys = Some [] \<longrightarrow> attractor_forces c sys a = []"
    by (auto simp add: attractor_forces_def)
  have 3: "repellers sys = None \<or> repellers sys = Some [] \<longrightarrow> repeller_forces c sys a = []"
    by (auto simp add: repeller_forces_def)
  have 4: "(\<forall>s \<in> set (sensors a). \<not> activated s) \<longrightarrow> sensor_forces c a = []"
    by (simp add: sensor_forces_def sensor_forces_none)
  have 5: "motorSpeed a = 0 \<or> (\<exists>s \<in> set (sensors a). activated s) \<longrightarrow> motor_forces a = []"
    by (auto simp add: motor_forces_def)
  have 6: "\<not> followMouse a \<or> touch sys \<longrightarrow> mouse_forces sys a = []"
    by (auto simp add: mouse_forces_def)
  have 7: "seekTarget a = None \<longrightarrow> seek_forces a = []"
    by (simp add: seek_forces_def)
  have 8: "flowField a = None \<longrightarrow> flow_forces a = []"
    by (simp add: flow_forces_def)
  have 9: "\<not> flocking a \<longrightarrow> flocking_forces sys a = []"
    by (simp add: flocking_forces_def)
  show ?thesis
    using run 1 2 3 4 5 6 7 8 9 by (intro conjI)
qed

theorem applyForces_ordered_additive_witness:
  "accumulator_blind still_collaborators \<and> mass flocker \<noteq> 0
   \<and> liquid_forces still_collaborators pond_system flocker = [Vector 1 0]
   \<and> attractor_forces still_collaborators pond_system flocker = [Vector 0 1]
   \<and> sensor_forces still_collaborators flocker = [Vector 1 1]
   \<and> motor_forces flocker = []
   \<and> flocking_forces pond_system flocker = [Vector (- 2) 0, Vector 0 0, Vector 1 0]
   \<and> (\<exists>a'. applyForces still_collaborators pond_system flocker = Some (acceleration a', a')
         \<and> acceleration a' = Vector 1 2)"
proof -
  have m: "mass flocker \<noteq> 0" by (simp add: flocker_def agent0_def)
  have l: "liquid_forces still_collaborators pond_system flocker = [Vector 1 0]"
    by (simp add: liquid_forces_def pond_system_def still_collaborators_def flocker_def
        agent0_def)
  have at: "attractor_forces still_collaborators pond_system flocker = [Vector 0 1]"
    by (simp add: attractor_forces_def pond_system_def still_collaborators_def flocker_def
        agent0_def)
  have se: "sensor_forces still_collaborators flocker = [Vector 1 1]"
    by (simp add: sensor_forces_def sensor_forces_from_def flocker_def probe_def
        still_collaborators_def)
  have mo: "motor_forces flocker = []"
    by (simp add: motor_forces_def flocker_def probe_def)
  have sf: "separate_force flocker [agent0, agent1] = Vector (- 1) 0"
    by (simp add: separate_force_def separate_def flocker_def agent0_def agent1_def steer_def
        Let_def distance_def VectorSub_def vnormalize_def vdiv_def vadd_def vmult_def vsub_def
        vlimit_def mag_def)
  have af: "align_force flocker [agent0, agent1] = Vector 0 0"
    by (simp add: align_force_def align_def flocker_def agent0_def agent1_def steer_def
        Let_def distance_def vnormalize_def vdiv_def vadd_def vmult_def vsub_def
        vlimit_def mag_def)
  have cf: "cohesion_force flocker [agent0, agent1] = Vector 1 0"
    by (simp add: cohesion_force_def cohesion_def flocker_def agent0_def agent1_def steer_def
        Let_def distance_def vnormalize_def vdiv_def vadd_def vmult_def vsub_def
        vlimit_def mag_def)
  have st: "separateStrength flocker = 2" "alignStrength flocker = 1"
    "cohesionStrength flocker = 1" "flocking flocker" "agents pond_system = [agent0, agent1]"
    by (simp_all add: flocker_def agent0_def pond_system_def)
  have fl: "flocking_forces pond_system flocker = [Vector (- 2) 0, Vector 0 0, Vector 1 0]"
    by (simp add: flocking_forces_def flock_forces_def st sf af cf vmult_def)
  have rest: "repeller_forces still_collaborators pond_system flocker = []"
    "mouse_forces pond_system flocker = []"
    "seek_forces flocker = []" "flow_forces flocker = []"
    by (simp_all add: repeller_forces_def mouse_forces_def seek_forces_def flow_forces_def
        pond_system_def flocker_def agent0_def)
  have acc: "acceleration flocker = Vector 0 0" "mass flocker = 1"
    by (simp_all add: flocker_def agent0_def)
  show ?thesis
    using constant_forces_blind m l at se mo fl
      applyForces_ordered_additive [OF constant_forces_blind m, of pond_system]
    unfolding l at se mo fl rest acc
    by (simp add: vadd_def)
qed

text \<open>
  Claim C8. When the options object omits the field, \<open>init\<close> sets \<open>followMouse\<close> to false,
  \<open>maxSteeringForce\<close> to 10, \<open>desiredSeparation\<close> to twice the agent's width,
  \<open>separateStrength\<close> to 0.3, \<open>alignStrength\<close> to 0.2 and \<open>cohesionStrength\<close> to 0.1.
\<close>

theorem init_defaults:
  "(opt_followMouse opts = None \<longrightarrow> followMouse (init (Some opts) this) = False)
   \<and> (opt_maxSteeringForce opts = None \<longrightarrow> maxSteeringForce (init (Some opts) this) = 10)
   \<and> (opt_desiredSeparation opts = None \<longrightarrow>
        desiredSeparation (init (Some opts) this) = 2 * width (init (Some opts) this))
   \<and> (opt_separateStrength opts = None \<longrightarrow> separateStrength (init (Some opts) this) = 0.3)
   \<and> (opt_alignStrength opts = None \<longrightarrow> alignStrength (init (Some opts) this) = 0.2)
   \<and> (opt_cohesionStrength opts = None \<longrightarrow> cohesionStrength (init (Some opts) this) = 0.1)"
  by (simp add: init_def Let_def truthy_bool_def)

theorem init_defaults_witness:
  "opt_followMouse no_options = None \<and> opt_maxSteeringForce no_options = None
   \<and> opt_desiredSeparation no_options = None \<and> opt_separateStrength no_options = None
   \<and> opt_alignStrength no_options = None \<and> opt_cohesionStrength no_options = None
   \<and> followMouse (init (Some no_options) agent0) = False
   \<and> maxSteeringForce (init (Some no_options) agent0) = 10
   \<and> desiredSeparation (init (Some no_options) agent0) = 2
   \<and> separateStrength (init (Some no_options) agent0) = 0.3
   \<and> alignStrength (init (Some no_options) agent0) = 0.2
   \<and> cohesionStrength (init (Some no_options) agent0) = 0.1"
proof -
  have w: "width (init (Some no_options) agent0) = 1"
    by (simp add: init_def Let_def agent0_def)
  show ?thesis
    using init_defaults [of no_options agent0] unfolding w
    by (simp add: no_options_def)
qed

text \<open>
  Claim C9. \<open>getVelocity()\<close> with no argument returns a new vector with the components of
  the agent's location, as \<open>getLocation()\<close> does, and so not the velocity when the two
  differ; \<open>getVelocity('x')\<close> and \<open>getVelocity('y')\<close> return the components of the velocity.
\<close>

theorem getVelocity_returns_location:
  "getVelocity a None = ResultVector (Vector (vx (location a)) (vy (location a)))
   \<and> getVelocity a None = getLocation a None
   \<and> (velocity a \<noteq> location a \<longrightarrow> getVelocity a None \<noteq> ResultVector (velocity a))
   \<and> getVelocity a (Some ''x'') = ResultNumber (vx (velocity a))
   \<and> getVelocity a (Some ''y'') = ResultNumber (vy (velocity a))"
  by (simp add: getVelocity_def getLocation_def truthy_string_def)

theorem getVelocity_returns_location_witness:
  "velocity agent1 \<noteq> location agent1
   \<and> getVelocity agent1 None = ResultVector (Vector 1 0)
   \<and> getVelocity agent1 None \<noteq> ResultVector (velocity agent1)
   \<and> getVelocity agent1 (Some ''x'') = ResultNumber 0"
  using getVelocity_returns_location [of agent1]
  by (simp add: agent1_def agent0_def)

text \<open>
  Claim C10. After \<open>init\<close> the agent's \<open>borderRadius\<close> is 100 when \<open>options.borderRadius\<close> is
  truthy (a number other than 0) or the list of sensors is not empty, and 0 otherwise,
  whatever number was asked for; with no options object it is 0.
\<close>

theorem init_borderRadius:
  "borderRadius (init (Some opts) this) =
     (if (\<exists>r. opt_borderRadius opts = Some r \<and> r \<noteq> 0) \<or> sensors (init (Some opts) this) \<noteq> []
      then 100 else 0)
   \<and> borderRadius (init None this) = 0"
  by (auto simp add: init_def Let_def truthy_number_def no_options_def split: option.splits)

theorem init_borderRadius_witness:
  "borderRadius (init (Some (no_options\<lparr>opt_borderRadius := Some 5\<rparr>)) agent0) = 100
   \<and> borderRadius (init (Some no_options) agent0) = 0"
  using init_borderRadius [of "no_options\<lparr>opt_borderRadius := Some 5\<rparr>" agent0]
    init_borderRadius [of no_options agent0]
  by (simp add: no_options_def init_def Let_def)

end
